theory Spec2Isabelle
  imports Main "HOL-Library.Word"
begin

section \<open>Data model of \<^verbatim>\<open>ballistica.cc\<close>\<close>

text \<open>
  The file under verification is \<^verbatim>\<open>src/ballistica/ballistica.cc\<close>: the process entry
  \<^verbatim>\<open>BallisticaMain\<close>, the clock \<^verbatim>\<open>GetRealTime\<close>, the fatal-error entry \<^verbatim>\<open>FatalError\<close>,
  the thread-affinity predicates and the classifier \<^verbatim>\<open>IsUnmodifiedBlessedBuild\<close>.
  Pointers are \<open>option\<close> values (\<open>None\<close> is \<^verbatim>\<open>nullptr\<close>), the global variables of
  lines 40--63 are one record, and every call into a collaborator whose code lives in
  another file is an event of a trace.
\<close>

subsection \<open>Threads and modules\<close>

text \<open>An operating-system thread identity (\<^verbatim>\<open>std::thread::id\<close>).\<close>

type_synonym thread_id = nat

text \<open>The \<^verbatim>\<open>ThreadIdentifier\<close> values this file names.\<close>

datatype ThreadIdentifier = kMain | kMedia | kAudio | kGame | kNetworkWrite

record Thread =
  ident :: ThreadIdentifier
  os_thread :: thread_id

text \<open>
  Modelled from the spec: \<^verbatim>\<open>Thread::IsCurrent()\<close> is declared in \<^verbatim>\<open>core/thread.h\<close>, which
  is not part of the sources. The spec (4.2): true iff the calling execution context is
  this thread. The calling context is the first argument.
\<close>

definition IsCurrent :: "thread_id \<Rightarrow> Thread \<Rightarrow> bool" where
  "IsCurrent cur t = (os_thread t = cur)"

text \<open>
  A module object (\<^verbatim>\<open>Game\<close>, \<^verbatim>\<open>GraphicsServer\<close>, \<^verbatim>\<open>AudioServer\<close>, ...) as far as this file
  looks into it: \<^verbatim>\<open>thread()\<close>, the thread it was added to.
\<close>

record Module =
  thread :: Thread

datatype ModuleKind = Game | NetworkWriteModule | MediaServer | GraphicsServer | AudioServer

subsection \<open>Global state\<close>

text \<open>
  \<^verbatim>\<open>millisecs_t\<close> is declared in a header that is not part of the sources. The code
  compares it with 0 after a subtraction, so it is a signed integer type of fixed width:
  it is taken at 64 bits, two's complement, where \<open>-\<close> and \<open>+\<close> wrap around, \<open>sint\<close> reads
  the value and \<open><s\<close> is the signed comparison.
\<close>

type_synonym millisecs_t = "64 word"

text \<open>The fields of \<^verbatim>\<open>AppGlobals\<close> that this file reads or writes.\<close>

record AppGlobals =
  is_bootstrapped :: bool
  pausable_threads :: "Thread list"
  main_thread_id :: thread_id
  real_time :: millisecs_t
  last_real_time_ticks :: millisecs_t
  user_ran_commands :: bool
  calced_blessing_hash :: string
  return_value :: int

text \<open>
  Modelled from the spec: the constructor \<^verbatim>\<open>AppGlobals(argc, argv)\<close> belongs to
  \<^verbatim>\<open>app/app_globals.h\<close>, which is not part of the sources. The spec (3, 8) gives a clock that
  starts at accumulator 0 and last-observed ticks 0, no pausable thread, flags unset, and
  the identity of the constructing (main) thread.
\<close>

definition new_AppGlobals :: "thread_id \<Rightarrow> AppGlobals" where
  "new_AppGlobals cur =
     \<lparr> is_bootstrapped = False, pausable_threads = [], main_thread_id = cur,
       real_time = 0, last_real_time_ticks = 0, user_ran_commands = False,
       calced_blessing_hash = [], return_value = 0 \<rparr>"

text \<open>
  The objects behind \<^verbatim>\<open>g_platform\<close> and \<^verbatim>\<open>g_app\<close>, as far as this file reads them:
  \<^verbatim>\<open>using_custom_app_python_dir()\<close> and \<^verbatim>\<open>UsesEventLoop()\<close>.
\<close>

record Platform =
  using_custom_app_python_dir :: bool

record App =
  UsesEventLoop :: bool

text \<open>
  The standalone globals of lines 40--63 that a function of this file reads or assigns.
  All of them are brace-initialised, that is null, when the process starts. (The other
  globals of that list are only declared here.)
\<close>

record globals =
  g_main_thread :: "Thread option"
  g_app_globals :: "AppGlobals option"
  g_app :: "App option"
  g_account :: "unit option"
  g_game :: "Module option"
  g_bg_dynamics_server :: "Module option"
  g_platform :: "Platform option"
  g_utils :: "unit option"
  g_graphics_server :: "Module option"
  g_media_server :: "Module option"
  g_audio_server :: "Module option"
  g_network_write_module :: "Module option"

definition initial_globals :: globals where
  "initial_globals =
     \<lparr> g_main_thread = None, g_app_globals = None, g_app = None, g_account = None,
       g_game = None, g_bg_dynamics_server = None, g_platform = None, g_utils = None,
       g_graphics_server = None, g_media_server = None, g_audio_server = None,
       g_network_write_module = None \<rparr>"

subsection \<open>Build parameters\<close>

text \<open>
  What is fixed when the binary is built: \<^verbatim>\<open>g_buildconfig.debug_build()\<close>, the macro
  \<^verbatim>\<open>BA_HEADLESS_BUILD\<close>, whether \<^verbatim>\<open>assert\<close> is compiled in, and the value the build script
  writes into \<^verbatim>\<open>kBlessingHash\<close> (line 31: ``set automatically via script''). The file
  as it stands has \<^verbatim>\<open>kBlessingHash = nullptr\<close> (line 34).
\<close>

record build =
  debug_build :: bool
  headless_build :: bool
  asserts_enabled :: bool
  embedded_hash :: "string option"

definition kBlessingHash :: "string option" where
  "kBlessingHash = None"

subsection \<open>Pointer reads\<close>

text \<open>
  Reading through a null pointer is a fault of its own, so that ``returns false rather
  than failing'' is a statement about the model. \<open>cpp_and\<close> is \<^verbatim>\<open>&&\<close>: the right operand
  is evaluated only when the left one is true.
\<close>

datatype fault = NullPointerDereference

definition deref :: "'a option \<Rightarrow> fault + 'a" where
  "deref p = (case p of None \<Rightarrow> Inl NullPointerDereference | Some x \<Rightarrow> Inr x)"

definition nonnull :: "'a option \<Rightarrow> fault + bool" where
  "nonnull p = Inr (p \<noteq> None)"

definition field :: "('a \<Rightarrow> 'b) \<Rightarrow> 'a option \<Rightarrow> fault + 'b" where
  "field f p = map_sum id f (deref p)"

definition cpp_and :: "fault + bool \<Rightarrow> fault + bool \<Rightarrow> fault + bool" where
  "cpp_and a b = (case a of Inl f \<Rightarrow> Inl f | Inr x \<Rightarrow> if x then b else Inr False)"

definition cpp_not :: "fault + bool \<Rightarrow> fault + bool" where
  "cpp_not a = map_sum id Not a"

text \<open>\<^verbatim>\<open>if (c) return r;\<close> followed by the rest of the function body.\<close>

definition if_return :: "fault + bool \<Rightarrow> fault + 'a \<Rightarrow> fault + 'a \<Rightarrow> fault + 'a" where
  "if_return c r rest = (case c of Inl f \<Rightarrow> Inl f | Inr x \<Rightarrow> if x then r else rest)"

section \<open>The classifier: \<^verbatim>\<open>IsUnmodifiedBlessedBuild\<close> (lines 302--334)\<close>

definition IsUnmodifiedBlessedBuild :: "build \<Rightarrow> globals \<Rightarrow> fault + bool" where
  "IsUnmodifiedBlessedBuild b g =
     if_return (Inr (debug_build b)) (Inr False)
    (if_return (cpp_and (nonnull (g_app_globals g))
                        (field user_ran_commands (g_app_globals g))) (Inr False)
    (if_return (cpp_and (nonnull (g_platform g))
                        (field using_custom_app_python_dir (g_platform g))) (Inr False)
    (if_return (Inr (embedded_hash b = None)) (Inr False)
    (cpp_not
      (cpp_and (nonnull (g_app_globals g))
      (cpp_and (cpp_not (field (\<lambda>ag. calced_blessing_hash ag = []) (g_app_globals g)))
               (field (\<lambda>ag. Some (calced_blessing_hash ag) \<noteq> embedded_hash b)
                      (g_app_globals g))))))))"

text \<open>
  The policy in the words of the spec (4.5), for comparison: five rules, the first one
  that matches decides. ``Not yet computed'' is an empty runtime hash, or no global state
  to hold one.
\<close>

definition runtime_hash :: "globals \<Rightarrow> string" where
  "runtime_hash g = (case g_app_globals g of None \<Rightarrow> [] | Some ag \<Rightarrow> calced_blessing_hash ag)"

definition developer_commands_run :: "globals \<Rightarrow> bool" where
  "developer_commands_run g =
     (case g_app_globals g of None \<Rightarrow> False | Some ag \<Rightarrow> user_ran_commands ag)"

definition custom_scripting_directory :: "globals \<Rightarrow> bool" where
  "custom_scripting_directory g =
     (case g_platform g of None \<Rightarrow> False | Some p \<Rightarrow> using_custom_app_python_dir p)"

definition blessing_policy :: "build \<Rightarrow> globals \<Rightarrow> bool" where
  "blessing_policy b g =
     (if debug_build b then False
      else if developer_commands_run g then False
      else if custom_scripting_directory g then False
      else if embedded_hash b = None then False
      else (Some (runtime_hash g) = embedded_hash b \<or> runtime_hash g = []))"

section \<open>Thread-affinity predicates (lines 235--267)\<close>

text \<open>The first argument is the thread the predicate is invoked from.\<close>

definition InGameThread :: "thread_id \<Rightarrow> globals \<Rightarrow> fault + bool" where
  "InGameThread cur g =
     cpp_and (nonnull (g_game g)) (field (\<lambda>m. IsCurrent cur (thread m)) (g_game g))"

definition InMainThread :: "thread_id \<Rightarrow> globals \<Rightarrow> fault + bool" where
  "InMainThread cur g =
     cpp_and (nonnull (g_app_globals g)) (field (\<lambda>ag. cur = main_thread_id ag) (g_app_globals g))"

definition InGraphicsThread :: "thread_id \<Rightarrow> globals \<Rightarrow> fault + bool" where
  "InGraphicsThread cur g =
     cpp_and (nonnull (g_graphics_server g))
             (field (\<lambda>m. IsCurrent cur (thread m)) (g_graphics_server g))"

definition InAudioThread :: "thread_id \<Rightarrow> globals \<Rightarrow> fault + bool" where
  "InAudioThread cur g =
     cpp_and (nonnull (g_audio_server g))
             (field (\<lambda>m. IsCurrent cur (thread m)) (g_audio_server g))"

definition InBGDynamicsThread :: "build \<Rightarrow> thread_id \<Rightarrow> globals \<Rightarrow> fault + bool" where
  "InBGDynamicsThread b cur g =
     (if \<not> headless_build b then
        cpp_and (nonnull (g_bg_dynamics_server g))
                (field (\<lambda>m. IsCurrent cur (thread m)) (g_bg_dynamics_server g))
      else Inr False)"

definition InMediaThread :: "thread_id \<Rightarrow> globals \<Rightarrow> fault + bool" where
  "InMediaThread cur g =
     cpp_and (nonnull (g_media_server g))
             (field (\<lambda>m. IsCurrent cur (thread m)) (g_media_server g))"

definition InNetworkWriteThread :: "thread_id \<Rightarrow> globals \<Rightarrow> fault + bool" where
  "InNetworkWriteThread cur g =
     cpp_and (nonnull (g_network_write_module g))
             (field (\<lambda>m. IsCurrent cur (thread m)) (g_network_write_module g))"

section \<open>The clock: \<^verbatim>\<open>GetRealTime\<close> (lines 185--209)\<close>

text \<open>
  \<^verbatim>\<open>GetRealTime\<close> reads \<^verbatim>\<open>g_platform->GetTicks()\<close> and updates the two clock fields of
  \<^verbatim>\<open>*g_app_globals\<close>; both pointers are dereferenced without a test, so the function is
  modelled on the object \<^verbatim>\<open>g_app_globals\<close> points to. The raw tick reading \<open>t\<close> is the
  input; the result is the returned value and the updated object.
\<close>

definition GetRealTime :: "millisecs_t \<Rightarrow> AppGlobals \<Rightarrow> millisecs_t \<times> AppGlobals" where
  "GetRealTime t ag =
     (if t \<noteq> last_real_time_ticks ag then
        (let passed = t - last_real_time_ticks ag;
             passed = (if passed <s 0 then 0 else if 250 <s passed then 250 else passed);
             ag' = ag\<lparr> real_time := real_time ag + passed, last_real_time_ticks := t \<rparr>
         in (real_time ag', ag'))
      else (real_time ag, ag))"

text \<open>Successive calls, one per raw tick reading; the list of the values returned.\<close>

fun GetRealTime_calls :: "millisecs_t list \<Rightarrow> AppGlobals \<Rightarrow> millisecs_t list" where
  "GetRealTime_calls [] ag = []"
| "GetRealTime_calls (t # ts) ag =
     (case GetRealTime t ag of (r, ag') \<Rightarrow> r # GetRealTime_calls ts ag')"

section \<open>\<^verbatim>\<open>IsBootstrapped\<close> (line 295)\<close>

definition IsBootstrapped :: "globals \<Rightarrow> fault + bool" where
  "IsBootstrapped g = field is_bootstrapped (g_app_globals g)"

section \<open>The fatal-error protocol and \<^verbatim>\<open>BallisticaMain\<close> (lines 81--183, 211--216)\<close>

subsection \<open>Events, environment, machine\<close>

text \<open>
  One event per statement of \<^verbatim>\<open>BallisticaMain\<close> and \<^verbatim>\<open>FatalError\<close> that calls into a
  collaborator, allocates, or assigns the bootstrap flag. The trace of a run lists them in
  the order of execution, each with the globals as they were when the statement began.
\<close>

datatype event =
    ReportFatalError string bool
  | HandleFatalError bool bool
  | New_AppGlobals
  | Platform_Create
  | Platform_PostInit
  | New_Account
  | New_Utils
  | Scene_Init
  | New_Thread ThreadIdentifier
  | Platform_CreateApp
  | Pausable_push_back ThreadIdentifier
  | AddModule ThreadIdentifier ModuleKind
  | Platform_CreateAuxiliaryModules
  | Set_is_bootstrapped
  | Game_PushApplyConfigCall
  | App_OnBootstrapComplete
  | Platform_OnBootstrapComplete
  | App_UsesEventLoop
  | RunEventLoop bool
  | App_PrimeEventPump
  | Platform_WillExitMain bool

text \<open>
  What a statement can raise: a \<^verbatim>\<open>std::exception\<close> with its \<^verbatim>\<open>what()\<close> text, which the
  handler of line 162 catches, or anything else, which it does not.
\<close>

datatype thrown = StdException string | OtherException

text \<open>
  Everything the run takes from outside this file: the environment variable, the thread
  identities, the objects the platform creates, which statement raises what, what a
  collaborator call does to the \<^verbatim>\<open>AppGlobals\<close> object, and whether the platform's handle
  step intercepts a fatal error (for the two arguments of \<^verbatim>\<open>HandleFatalError\<close>).
\<close>

record environment =
  BA_CRASH_TEST :: "string option"
  calling_thread :: thread_id
  spawned :: "ThreadIdentifier \<Rightarrow> thread_id"
  created_platform :: Platform
  created_app :: App
  created_bg_dynamics_server :: "Module option"
  throws :: "event \<Rightarrow> thrown option"
  collaborator :: "event \<Rightarrow> AppGlobals \<Rightarrow> AppGlobals"
  platform_intercepts :: "bool \<Rightarrow> bool \<Rightarrow> bool"

record machine =
  globals :: globals
  trace :: "(event \<times> globals) list"

definition initial_machine :: machine where
  "initial_machine = \<lparr> globals = initial_globals, trace = [] \<rparr>"

text \<open>
  How a statement sequence stops early: an exception, a null dereference, \<^verbatim>\<open>abort()\<close>,
  \<^verbatim>\<open>exit(code)\<close>.
\<close>

datatype signal = Throw thrown | Crash fault | Abort | Exit int

text \<open>
  A statement: its event, the pointers it dereferences (\<open>needs\<close>), what it assigns to the
  globals, whether it can raise (\<open>raises\<close>: every call and every allocation), and whether
  it runs code of another file, which may write to the \<^verbatim>\<open>AppGlobals\<close> object (\<open>external\<close>).
\<close>

record stmt =
  ev :: event
  needs :: "globals \<Rightarrow> bool"
  assigns :: "globals \<Rightarrow> globals"
  raises :: bool
  external :: bool

definition log_event :: "event \<Rightarrow> machine \<Rightarrow> machine" where
  "log_event e m = m\<lparr> trace := trace m @ [(e, globals m)] \<rparr>"

definition on_app_globals :: "(AppGlobals \<Rightarrow> AppGlobals) \<Rightarrow> globals \<Rightarrow> globals" where
  "on_app_globals f g = g\<lparr> g_app_globals := map_option f (g_app_globals g) \<rparr>"

definition step :: "environment \<Rightarrow> stmt \<Rightarrow> machine \<Rightarrow> signal option \<times> machine" where
  "step env s m =
     (if \<not> needs s (globals m) then (Some (Crash NullPointerDereference), m)
      else
        (let m1 = log_event (ev s) m in
         case (if raises s then throws env (ev s) else None) of
           Some x \<Rightarrow> (Some (Throw x), m1)
         | None \<Rightarrow>
             (let g1 = assigns s (globals m1);
                  g2 = (if external s then on_app_globals (collaborator env (ev s)) g1 else g1)
              in (None, m1\<lparr> globals := g2 \<rparr>))))"

fun exec :: "environment \<Rightarrow> stmt list \<Rightarrow> machine \<Rightarrow> signal option \<times> machine" where
  "exec env [] m = (None, m)"
| "exec env (s # ss) m =
     (case step env s m of
        (None, m') \<Rightarrow> exec env ss m'
      | (Some x, m') \<Rightarrow> (Some x, m'))"

definition and_then ::
  "signal option \<times> machine \<Rightarrow> (machine \<Rightarrow> signal option \<times> machine) \<Rightarrow> signal option \<times> machine"
where
  "and_then r k = (case r of (None, m) \<Rightarrow> k m | (Some x, m) \<Rightarrow> (Some x, m))"

subsection \<open>\<^verbatim>\<open>FatalError::HandleFatalError\<close> and \<^verbatim>\<open>FatalError(message)\<close> (lines 211--216)\<close>

text \<open>
  Modelled from the spec: \<^verbatim>\<open>FatalError::ReportFatalError\<close> and
  \<^verbatim>\<open>FatalError::HandleFatalError\<close> belong to \<^verbatim>\<open>core/fatal_error.h\<close>, which is not part
  of the sources. The report returns nothing and is an event of the trace. The handle
  step, in the words of the spec:
  \<^item> (4.4) the reporter ``gives a "handle" step a chance to intercept (e.g., show a
    user-facing dialog, attempt telemetry upload) and returns whether it did so''. The step
    that intercepts is the platform's, so there is none to ask while \<^verbatim>\<open>g_platform\<close> is null
    (7: an early fatal ``must not assume any subsystem pointer is valid''; 8: at the crash
    test ``no subsystem besides the reporter itself was constructed'').
  \<^item> (4.4) ``if unhandled, the orchestrator applies the exit-cleanly decision itself'': at
    the top-level boundary an error that is not intercepted is returned as \<open>false\<close>, and
    lines 171--177 decide.
  \<^item> (7, 8) anywhere else the fatal path has the ``same reporting/exit policy'', is
    ``asserted to always be "handled" by the time control returns'', and at the crash test
    ``causes process exit with a non-zero code'': there an error that is not intercepted
    ends the process inside the handle step, by \<^verbatim>\<open>exit(1)\<close> when a clean exit is allowed and
    by \<^verbatim>\<open>abort()\<close> when it is not.
\<close>

datatype handle_outcome = Returns bool | CallsExit int | CallsAbort

definition FatalError_HandleFatalError ::
  "environment \<Rightarrow> globals \<Rightarrow> bool \<Rightarrow> bool \<Rightarrow> handle_outcome" where
  "FatalError_HandleFatalError env g exit_cleanly in_top_level_exception_handler =
     (if g_platform g \<noteq> None \<and>
         platform_intercepts env exit_cleanly in_top_level_exception_handler
      then Returns True
      else if \<not> in_top_level_exception_handler
      then (if exit_cleanly then CallsExit 1 else CallsAbort)
      else Returns False)"

text \<open>Lines 211--216. The assertion on \<^verbatim>\<open>handled\<close> aborts when assertions are compiled in.\<close>

definition FatalError ::
  "build \<Rightarrow> environment \<Rightarrow> string \<Rightarrow> machine \<Rightarrow> signal option \<times> machine" where
  "FatalError b env message m =
     (let m1 = log_event (ReportFatalError message False) m in
      case IsUnmodifiedBlessedBuild b (globals m1) of
        Inl f \<Rightarrow> (Some (Crash f), m1)
      | Inr blessed \<Rightarrow>
          (let exit_cleanly = \<not> blessed;
               m2 = log_event (HandleFatalError exit_cleanly False) m1
           in case FatalError_HandleFatalError env (globals m2) exit_cleanly False of
                CallsExit code \<Rightarrow> (Some (Exit code), m2)
              | CallsAbort \<Rightarrow> (Some Abort, m2)
              | Returns handled \<Rightarrow>
                  if asserts_enabled b \<and> \<not> handled then (Some Abort, m2) else (None, m2)))"

subsection \<open>The statements of the \<^verbatim>\<open>try\<close> block (lines 85--161)\<close>

text \<open>
  Three kinds of statement: a call into another file; an allocation whose result this
  model fixes (\<^verbatim>\<open>new AppGlobals\<close>, \<^verbatim>\<open>push_back\<close>); a plain assignment.
\<close>

definition call :: "event \<Rightarrow> (globals \<Rightarrow> bool) \<Rightarrow> (globals \<Rightarrow> globals) \<Rightarrow> stmt" where
  "call e n a = \<lparr> ev = e, needs = n, assigns = a, raises = True, external = True \<rparr>"

definition alloc :: "event \<Rightarrow> (globals \<Rightarrow> bool) \<Rightarrow> (globals \<Rightarrow> globals) \<Rightarrow> stmt" where
  "alloc e n a = \<lparr> ev = e, needs = n, assigns = a, raises = True, external = False \<rparr>"

definition assign :: "event \<Rightarrow> (globals \<Rightarrow> bool) \<Rightarrow> (globals \<Rightarrow> globals) \<Rightarrow> stmt" where
  "assign e n a = \<lparr> ev = e, needs = n, assigns = a, raises = False, external = False \<rparr>"

definition new_Thread :: "environment \<Rightarrow> ThreadIdentifier \<Rightarrow> Thread" where
  "new_Thread env i =
     \<lparr> ident = i, os_thread = (if i = kMain then calling_thread env else spawned env i) \<rparr>"

definition push_back :: "Thread \<Rightarrow> globals \<Rightarrow> globals" where
  "push_back t = on_app_globals (\<lambda>ag. ag\<lparr> pausable_threads := pausable_threads ag @ [t] \<rparr>)"

definition crash_test :: "build \<Rightarrow> environment \<Rightarrow> machine \<Rightarrow> signal option \<times> machine" where
  "crash_test b env m =
     (case BA_CRASH_TEST env of
        Some crashenv \<Rightarrow>
          if crashenv = ''1'' then FatalError b env ''Fatal-Error-Test'' m else (None, m)
      | None \<Rightarrow> (None, m))"

text \<open>
  Phase 1, lines 95--130. The constructors and \<^verbatim>\<open>AddModule\<close> are defined elsewhere; what
  they assign to the globals is taken from this file's own account of them (lines 65--68:
  after this step every global exists that is going to exist; line 105: \<^verbatim>\<open>CreateApp\<close>
  spins up \<^verbatim>\<open>g_app\<close>; line 126: bg-dynamics comes from \<^verbatim>\<open>CreateAuxiliaryModules\<close>).
\<close>

definition phase1 :: "environment \<Rightarrow> stmt list" where
  "phase1 env =
     (let media_thread = new_Thread env kMedia;
          audio_thread = new_Thread env kAudio;
          game_thread = new_Thread env kGame;
          network_write_thread = new_Thread env kNetworkWrite
      in
      [ alloc New_AppGlobals (\<lambda>g. True)
          (\<lambda>g. g\<lparr> g_app_globals := Some (new_AppGlobals (calling_thread env)) \<rparr>),
        call Platform_Create (\<lambda>g. True) (\<lambda>g. g\<lparr> g_platform := Some (created_platform env) \<rparr>),
        call Platform_PostInit (\<lambda>g. g_platform g \<noteq> None) (\<lambda>g. g),
        call New_Account (\<lambda>g. True) (\<lambda>g. g\<lparr> g_account := Some () \<rparr>),
        call New_Utils (\<lambda>g. True) (\<lambda>g. g\<lparr> g_utils := Some () \<rparr>),
        call Scene_Init (\<lambda>g. True) (\<lambda>g. g),
        call (New_Thread kMain) (\<lambda>g. True)
          (\<lambda>g. g\<lparr> g_main_thread := Some (new_Thread env kMain) \<rparr>),
        call Platform_CreateApp (\<lambda>g. g_platform g \<noteq> None)
          (\<lambda>g. g\<lparr> g_app := Some (created_app env) \<rparr>),
        call (New_Thread kMedia) (\<lambda>g. True) (\<lambda>g. g),
        alloc (Pausable_push_back kMedia) (\<lambda>g. g_app_globals g \<noteq> None) (push_back media_thread),
        call (New_Thread kAudio) (\<lambda>g. True) (\<lambda>g. g),
        alloc (Pausable_push_back kAudio) (\<lambda>g. g_app_globals g \<noteq> None) (push_back audio_thread),
        call (New_Thread kGame) (\<lambda>g. True) (\<lambda>g. g),
        alloc (Pausable_push_back kGame) (\<lambda>g. g_app_globals g \<noteq> None) (push_back game_thread),
        call (New_Thread kNetworkWrite) (\<lambda>g. True) (\<lambda>g. g),
        alloc (Pausable_push_back kNetworkWrite) (\<lambda>g. g_app_globals g \<noteq> None)
          (push_back network_write_thread),
        call (AddModule kGame Game) (\<lambda>g. True)
          (\<lambda>g. g\<lparr> g_game := Some \<lparr> thread = game_thread \<rparr> \<rparr>),
        call (AddModule kNetworkWrite NetworkWriteModule) (\<lambda>g. True)
          (\<lambda>g. g\<lparr> g_network_write_module := Some \<lparr> thread = network_write_thread \<rparr> \<rparr>),
        call (AddModule kMedia MediaServer) (\<lambda>g. True)
          (\<lambda>g. g\<lparr> g_media_server := Some \<lparr> thread = media_thread \<rparr> \<rparr>),
        call (AddModule kMain GraphicsServer) (\<lambda>g. g_main_thread g \<noteq> None)
          (\<lambda>g. g\<lparr> g_graphics_server := map_option (\<lambda>t. \<lparr> thread = t \<rparr>) (g_main_thread g) \<rparr>),
        call (AddModule kAudio AudioServer) (\<lambda>g. True)
          (\<lambda>g. g\<lparr> g_audio_server := Some \<lparr> thread = audio_thread \<rparr> \<rparr>),
        call Platform_CreateAuxiliaryModules (\<lambda>g. g_platform g \<noteq> None)
          (\<lambda>g. g\<lparr> g_bg_dynamics_server := created_bg_dynamics_server env \<rparr>),
        assign Set_is_bootstrapped (\<lambda>g. g_app_globals g \<noteq> None)
          (on_app_globals (\<lambda>ag. ag\<lparr> is_bootstrapped := True \<rparr>)) ])"

text \<open>Phase 2, lines 138--143.\<close>

definition phase2 :: "stmt list" where
  "phase2 =
     [ call Game_PushApplyConfigCall (\<lambda>g. g_game g \<noteq> None) (\<lambda>g. g),
       call App_OnBootstrapComplete (\<lambda>g. g_app g \<noteq> None) (\<lambda>g. g),
       call Platform_OnBootstrapComplete (\<lambda>g. g_platform g \<noteq> None) (\<lambda>g. g) ]"

text \<open>Phase 3/4, lines 149--161: the branch on \<^verbatim>\<open>g_app->UsesEventLoop()\<close>.\<close>

definition steady_state :: "environment \<Rightarrow> machine \<Rightarrow> signal option \<times> machine" where
  "steady_state env m =
     and_then (step env (call App_UsesEventLoop (\<lambda>g. g_app g \<noteq> None) (\<lambda>g. g)) m)
       (\<lambda>m'. case field UsesEventLoop (g_app (globals m')) of
                Inl f \<Rightarrow> (Some (Crash f), m')
              | Inr uses \<Rightarrow>
                  if uses
                  then step env (call (RunEventLoop False) (\<lambda>g. g_main_thread g \<noteq> None) (\<lambda>g. g)) m'
                  else step env (call App_PrimeEventPump (\<lambda>g. g_app g \<noteq> None) (\<lambda>g. g)) m')"

definition try_block :: "build \<Rightarrow> environment \<Rightarrow> machine \<Rightarrow> signal option \<times> machine" where
  "try_block b env m =
     and_then (crash_test b env m)
       (\<lambda>m. and_then (exec env (phase1 env @ phase2) m) (steady_state env))"

subsection \<open>The handler and the exit (lines 162--183)\<close>

text \<open>How the process, or the call of \<^verbatim>\<open>BallisticaMain\<close>, ends.\<close>

datatype outcome =
    Returned int
  | Exited int
  | Rethrown string
  | Uncaught thrown
  | Aborted
  | Crashed fault

text \<open>Lines 181--182: \<^verbatim>\<open>g_platform->WillExitMain(false); return g_app_globals->return_value;\<close>\<close>

definition exit_main :: "environment \<Rightarrow> machine \<Rightarrow> outcome \<times> machine" where
  "exit_main env m =
     (case step env (call (Platform_WillExitMain False) (\<lambda>g. g_platform g \<noteq> None) (\<lambda>g. g)) m of
        (Some (Throw x), m') \<Rightarrow> (Uncaught x, m')
      | (Some (Crash f), m') \<Rightarrow> (Crashed f, m')
      | (Some Abort, m') \<Rightarrow> (Aborted, m')
      | (Some (Exit code), m') \<Rightarrow> (Exited code, m')
      | (None, m') \<Rightarrow>
          (case field return_value (g_app_globals (globals m')) of
             Inl f \<Rightarrow> (Crashed f, m')
           | Inr v \<Rightarrow> (Returned v, m')))"

text \<open>Lines 162--178: the body of \<^verbatim>\<open>catch (const std::exception& exc)\<close>.\<close>

definition catch_std_exception ::
  "build \<Rightarrow> environment \<Rightarrow> string \<Rightarrow> machine \<Rightarrow> outcome \<times> machine" where
  "catch_std_exception b env what m =
     (let error_msg = ''Unhandled exception in BallisticaMain(): '' @ what;
          m1 = log_event (ReportFatalError error_msg True) m
      in case IsUnmodifiedBlessedBuild b (globals m1) of
           Inl f \<Rightarrow> (Crashed f, m1)
         | Inr blessed \<Rightarrow>
             (let exit_cleanly = \<not> blessed;
                  m2 = log_event (HandleFatalError exit_cleanly True) m1
              in case FatalError_HandleFatalError env (globals m2) exit_cleanly True of
                   CallsExit code \<Rightarrow> (Exited code, m2)
                 | CallsAbort \<Rightarrow> (Aborted, m2)
                 | Returns handled \<Rightarrow>
                     if \<not> handled
                     then (if exit_cleanly then (Exited 1, m2) else (Rethrown what, m2))
                     else exit_main env m2))"

definition BallisticaMain :: "build \<Rightarrow> environment \<Rightarrow> outcome \<times> machine" where
  "BallisticaMain b env =
     (case try_block b env initial_machine of
        (None, m) \<Rightarrow> exit_main env m
      | (Some (Throw (StdException what)), m) \<Rightarrow> catch_std_exception b env what m
      | (Some (Throw OtherException), m) \<Rightarrow> (Uncaught OtherException, m)
      | (Some (Crash f), m) \<Rightarrow> (Crashed f, m)
      | (Some Abort, m) \<Rightarrow> (Aborted, m)
      | (Some (Exit code), m) \<Rightarrow> (Exited code, m))"

text \<open>The events of a machine and of a run, without the snapshots.\<close>

definition events_of :: "machine \<Rightarrow> event list" where
  "events_of m = map fst (trace m)"

definition events :: "outcome \<times> machine \<Rightarrow> event list" where
  "events r = events_of (snd r)"

text \<open>The events of phases 1 and 2 in program order.\<close>

definition bootstrap_events :: "event list" where
  "bootstrap_events =
     [New_AppGlobals, Platform_Create, Platform_PostInit, New_Account, New_Utils, Scene_Init,
      New_Thread kMain, Platform_CreateApp,
      New_Thread kMedia, Pausable_push_back kMedia, New_Thread kAudio, Pausable_push_back kAudio,
      New_Thread kGame, Pausable_push_back kGame,
      New_Thread kNetworkWrite, Pausable_push_back kNetworkWrite,
      AddModule kGame Game, AddModule kNetworkWrite NetworkWriteModule,
      AddModule kMedia MediaServer, AddModule kMain GraphicsServer, AddModule kAudio AudioServer,
      Platform_CreateAuxiliaryModules, Set_is_bootstrapped,
      Game_PushApplyConfigCall, App_OnBootstrapComplete, Platform_OnBootstrapComplete]"

text \<open>
  The statements of phase 1 that create a thread or attach a module, the platform's
  auxiliary modules included: as a test on events, and listed in program order.
\<close>

fun creates_thread_or_module :: "event \<Rightarrow> bool" where
  "creates_thread_or_module (New_Thread i) = True"
| "creates_thread_or_module (AddModule i k) = True"
| "creates_thread_or_module Platform_CreateAuxiliaryModules = True"
| "creates_thread_or_module e = False"

definition phase1_creations :: "event list" where
  "phase1_creations =
     [New_Thread kMain, New_Thread kMedia, New_Thread kAudio, New_Thread kGame,
      New_Thread kNetworkWrite,
      AddModule kGame Game, AddModule kNetworkWrite NetworkWriteModule,
      AddModule kMedia MediaServer, AddModule kMain GraphicsServer, AddModule kAudio AudioServer,
      Platform_CreateAuxiliaryModules]"

section \<open>Example inputs\<close>

text \<open>
  A release build of the file as it stands, and a release build into which the build
  script has written a hash.
\<close>

definition release_build :: build where
  "release_build =
     \<lparr> debug_build = False, headless_build = False, asserts_enabled = False,
       embedded_hash = kBlessingHash \<rparr>"

definition hashed_build :: build where
  "hashed_build = release_build\<lparr> embedded_hash := Some ''5f2a'' \<rparr>"

text \<open>
  A run in which nothing goes wrong: the variable is unset, no statement raises, the
  collaborators leave the \<^verbatim>\<open>AppGlobals\<close> object alone, the platform's handle step does not
  intercept, and the application is driven by the operating system (no event loop of its
  own).
\<close>

definition quiet_environment :: environment where
  "quiet_environment =
     \<lparr> BA_CRASH_TEST = None, calling_thread = 1,
       spawned = (\<lambda>i. case i of kMain \<Rightarrow> 1 | kMedia \<Rightarrow> 2 | kAudio \<Rightarrow> 3 | kGame \<Rightarrow> 4
                             | kNetworkWrite \<Rightarrow> 5),
       created_platform = \<lparr> using_custom_app_python_dir = False \<rparr>,
       created_app = \<lparr> UsesEventLoop = False \<rparr>,
       created_bg_dynamics_server = None,
       throws = (\<lambda>e. None), collaborator = (\<lambda>e ag. ag),
       platform_intercepts = (\<lambda>x y. False) \<rparr>"

text \<open>The same run, but priming the event pump raises \<^verbatim>\<open>std::runtime_error("boom")\<close>.\<close>

definition failing_environment :: environment where
  "failing_environment =
     quiet_environment\<lparr> throws :=
       (\<lambda>e. if e = App_PrimeEventPump then Some (StdException ''boom'') else None) \<rparr>"

text \<open>The same failing run on a platform whose handle step intercepts every fatal error.\<close>

definition intercepting_environment :: environment where
  "intercepting_environment =
     failing_environment\<lparr> platform_intercepts := (\<lambda>x y. True) \<rparr>"

text \<open>The crash test is requested, on the same platform.\<close>

definition crash_test_environment :: environment where
  "crash_test_environment =
     intercepting_environment\<lparr> BA_CRASH_TEST := Some ''1'' \<rparr>"

section \<open>Properties\<close>

subsection \<open>Traces of statements\<close>

lemma log_event_simps [simp]:
  "globals (log_event e m) = globals m"
  "trace (log_event e m) = trace m @ [(e, globals m)]"
  "events_of (log_event e m) = events_of m @ [e]"
  by (simp_all add: log_event_def events_of_def)

lemma bootstrap_events_eq: "map ev (phase1 env @ phase2) = bootstrap_events"
  by (simp add: phase1_def phase2_def bootstrap_events_def call_def alloc_def assign_def Let_def)

lemma step_events:
  "step env s m = (r, m') \<Longrightarrow>
     events_of m' = events_of m \<or> (events_of m' = events_of m @ [ev s])"
  by (auto simp: step_def Let_def events_of_def split: if_splits option.splits)

lemma step_None_events:
  "step env s m = (None, m') \<Longrightarrow> events_of m' = events_of m @ [ev s]"
  by (auto simp: step_def Let_def events_of_def split: if_splits option.splits)

lemma exec_events:
  "exec env ss m = (r, m') \<Longrightarrow>
     \<exists>k\<le>length ss. events_of m' = events_of m @ take k (map ev ss) \<and> (r = None \<longrightarrow> k = length ss)"
proof (induction ss arbitrary: m)
  case Nil
  then show ?case by simp
next
  case (Cons s ss)
  obtain r1 m1 where s1: "step env s m = (r1, m1)" by (cases "step env s m")
  show ?case
  proof (cases r1)
    case None
    with Cons.prems s1 have "exec env ss m1 = (r, m')" by simp
    from Cons.IH[OF this] obtain k where k: "k \<le> length ss"
      "events_of m' = events_of m1 @ take k (map ev ss)" "r = None \<longrightarrow> k = length ss" by blast
    from s1 None have "events_of m1 = events_of m @ [ev s]" by (simp add: step_None_events)
    with k show ?thesis by (intro exI[of _ "Suc k"]) simp
  next
    case (Some x)
    with Cons.prems s1 have e: "r = Some x" "m' = m1" by simp_all
    from step_events[OF s1] consider "events_of m1 = events_of m" | "events_of m1 = events_of m @ [ev s]"
      by blast
    then show ?thesis
    proof cases
      case 1
      with e show ?thesis by (intro exI[of _ 0]) simp
    next
      case 2
      with e show ?thesis by (intro exI[of _ 1]) simp
    qed
  qed
qed

subsection \<open>Pointer reads, the classifier, \<^verbatim>\<open>FatalError\<close>\<close>

lemma cpp_simps [simp]:
  "deref None = Inl NullPointerDereference"
  "deref (Some x) = Inr x"
  "nonnull None = Inr False"
  "nonnull (Some x) = Inr True"
  "field f None = Inl NullPointerDereference"
  "field f (Some x) = Inr (f x)"
  "cpp_and (Inr False) c = Inr False"
  "cpp_and (Inr True) c = c"
  "cpp_and (Inl e) c = Inl e"
  "cpp_not (Inr v) = Inr (\<not> v)"
  "cpp_not (Inl e) = Inl e"
  "if_return (Inr True) r1 r2 = r1"
  "if_return (Inr False) r1 r2 = r2"
  "if_return (Inl e) r1 r2 = Inl e"
  by (simp_all add: deref_def nonnull_def field_def cpp_and_def cpp_not_def if_return_def)

lemma IsUnmodifiedBlessedBuild_policy:
  "IsUnmodifiedBlessedBuild b g = Inr (blessing_policy b g)"
proof (cases "g_app_globals g")
  case None
  then show ?thesis
    by (cases "g_platform g"; cases "debug_build b"; cases "embedded_hash b")
       (auto simp: IsUnmodifiedBlessedBuild_def blessing_policy_def runtime_hash_def
          developer_commands_run_def custom_scripting_directory_def)
next
  case (Some ag)
  then show ?thesis
    by (cases "g_platform g"; cases "debug_build b"; cases "embedded_hash b";
        cases "user_ran_commands ag"; cases "calced_blessing_hash ag = []")
       (auto simp: IsUnmodifiedBlessedBuild_def blessing_policy_def runtime_hash_def
          developer_commands_run_def custom_scripting_directory_def)
qed

lemma blessing_policy_no_hash: "embedded_hash b = None \<Longrightarrow> blessing_policy b g = False"
  by (simp add: blessing_policy_def)

lemma HandleFatalError_top:
  "FatalError_HandleFatalError env g exit_cleanly True =
     Returns (g_platform g \<noteq> None \<and> platform_intercepts env exit_cleanly True)"
  by (simp add: FatalError_HandleFatalError_def)

lemma HandleFatalError_top_cases:
  "FatalError_HandleFatalError env g exit_cleanly True = Returns True \<or>
   FatalError_HandleFatalError env g exit_cleanly True = Returns False"
  by (simp add: FatalError_HandleFatalError_def)

lemma HandleFatalError_early:
  "g_platform g = None \<Longrightarrow>
     FatalError_HandleFatalError env g exit_cleanly False =
       (if exit_cleanly then CallsExit 1 else CallsAbort)"
  by (simp add: FatalError_HandleFatalError_def)

lemma FatalError_eq:
  "FatalError b env msg m =
     (if g_platform (globals m) \<noteq> None \<and>
         platform_intercepts env (\<not> blessing_policy b (globals m)) False
      then None
      else if blessing_policy b (globals m) then Some Abort else Some (Exit 1),
      m\<lparr> trace := trace m @ [(ReportFatalError msg False, globals m),
                               (HandleFatalError (\<not> blessing_policy b (globals m)) False, globals m)] \<rparr>)"
  by (simp add: FatalError_def FatalError_HandleFatalError_def IsUnmodifiedBlessedBuild_policy
        Let_def log_event_def)

lemma and_then_simps [simp]:
  "and_then (None, m) k = k m"
  "and_then (Some x, m) k = (Some x, m)"
  by (simp_all add: and_then_def)

lemma exec_append: "exec env (xs @ ys) m = and_then (exec env xs m) (exec env ys)"
  by (induction xs arbitrary: m) (auto split: prod.splits option.splits)

lemma step_trace:
  "step env s m = (r, m') \<Longrightarrow>
     (r = Some (Crash NullPointerDereference) \<and> \<not> needs s (globals m) \<and> m' = m) \<or>
     (needs s (globals m) \<and> trace m' = trace m @ [(ev s, globals m)] \<and>
        (r = None \<or> (\<exists>x. r = Some (Throw x) \<and> raises s \<and> throws env (ev s) = Some x \<and>
                           globals m' = globals m)))"
  by (auto simp: step_def Let_def log_event_def split: if_splits option.splits)

lemma step_None_globals:
  "step env s m = (None, m') \<Longrightarrow>
     globals m' = (if external s then on_app_globals (collaborator env (ev s)) (assigns s (globals m))
                   else assigns s (globals m))"
  by (auto simp: step_def Let_def log_event_def split: if_splits option.splits)

lemma exec_None_globals:
  "exec env ss m = (None, m') \<Longrightarrow>
     globals m' =
       foldl (\<lambda>g s. if external s then on_app_globals (collaborator env (ev s)) (assigns s g)
                     else assigns s g) (globals m) ss"
proof (induction ss arbitrary: m)
  case Nil
  then show ?case by simp
next
  case (Cons s ss)
  obtain r1 m1 where s1: "step env s m = (r1, m1)" by (cases "step env s m")
  with Cons.prems have r1: "r1 = None" and e: "exec env ss m1 = (None, m')"
    by (auto split: option.splits)
  from step_None_globals[OF s1[unfolded r1]] Cons.IH[OF e] show ?case by simp
qed

lemma bootstrapped_globals:
  assumes "exec env (phase1 env @ phase2) m = (None, m')"
  shows "g_app (globals m') = Some (created_app env)"
    and "g_platform (globals m') = Some (created_platform env)"
    and "g_main_thread (globals m') = Some (new_Thread env kMain)"
    and "g_app_globals (globals m') \<noteq> None"
    and "g_game (globals m') = Some \<lparr> thread = new_Thread env kGame \<rparr>"
    and "g_graphics_server (globals m') = Some \<lparr> thread = new_Thread env kMain \<rparr>"
    and "g_audio_server (globals m') = Some \<lparr> thread = new_Thread env kAudio \<rparr>"
    and "g_media_server (globals m') = Some \<lparr> thread = new_Thread env kMedia \<rparr>"
    and "g_network_write_module (globals m') = Some \<lparr> thread = new_Thread env kNetworkWrite \<rparr>"
    and "g_bg_dynamics_server (globals m') = created_bg_dynamics_server env"
  unfolding exec_None_globals[OF assms]
  by (simp_all add: phase1_def phase2_def call_def alloc_def assign_def Let_def
        on_app_globals_def push_back_def)

lemma exec_trace:
  "exec env ss m = (r, m') \<Longrightarrow>
     \<exists>B k. trace m' = trace m @ B \<and> k \<le> length ss \<and> map fst B = take k (map ev ss) \<and>
           (r = None \<longrightarrow> k = length ss)"
proof -
  assume a: "exec env ss m = (r, m')"
  have ext: "\<exists>B. trace m' = trace m @ B"
    using a
  proof (induction ss arbitrary: m)
    case Nil
    then show ?case by simp
  next
    case (Cons s ss)
    obtain r1 m1 where s1: "step env s m = (r1, m1)" by (cases "step env s m")
    from step_trace[OF s1] have t1: "\<exists>B. trace m1 = trace m @ B" by auto
    show ?case
    proof (cases r1)
      case None
      with Cons.prems s1 have "exec env ss m1 = (r, m')" by simp
      from Cons.IH[OF this] t1 show ?thesis by auto
    next
      case (Some x)
      with Cons.prems s1 t1 show ?thesis by auto
    qed
  qed
  then obtain B where B: "trace m' = trace m @ B" ..
  from exec_events[OF a] obtain k where k: "k \<le> length ss"
    "events_of m' = events_of m @ take k (map ev ss)" "r = None \<longrightarrow> k = length ss" by blast
  from B k(2) have "map fst B = take k (map ev ss)" by (simp add: events_of_def)
  with B k show ?thesis by blast
qed

lemma exec_notin:
  "exec env ss m = (r, m') \<Longrightarrow> e \<notin> ev ` set ss \<Longrightarrow>
     \<exists>B. trace m' = trace m @ B \<and> e \<notin> fst ` set B"
proof -
  assume a: "exec env ss m = (r, m')" and n: "e \<notin> ev ` set ss"
  from exec_trace[OF a] obtain B k where B: "trace m' = trace m @ B"
    "map fst B = take k (map ev ss)" by blast
  have "fst ` set B = set (map fst B)" by simp
  also have "\<dots> \<subseteq> ev ` set ss" unfolding B(2) using set_take_subset[of k "map ev ss"] by simp
  finally show ?thesis using B(1) n by blast
qed

subsection \<open>The bootstrap flag is set just before the first message\<close>

lemma phase_split:
  "phase1 env @ phase2 =
     butlast (phase1 env) @
     [assign Set_is_bootstrapped (\<lambda>g. g_app_globals g \<noteq> None)
        (on_app_globals (\<lambda>ag. ag\<lparr> is_bootstrapped := True \<rparr>)),
      call Game_PushApplyConfigCall (\<lambda>g. g_game g \<noteq> None) (\<lambda>g. g)] @ tl phase2"
  by (simp add: phase1_def phase2_def Let_def)

lemma push_notin:
  "Game_PushApplyConfigCall \<notin> ev ` set (butlast (phase1 env))"
  "Game_PushApplyConfigCall \<notin> ev ` set (tl phase2)"
  by (simp_all add: phase1_def phase2_def Let_def call_def alloc_def assign_def)

lemma set_then_push:
  assumes "exec env
     [assign Set_is_bootstrapped (\<lambda>g. g_app_globals g \<noteq> None)
        (on_app_globals (\<lambda>ag. ag\<lparr> is_bootstrapped := True \<rparr>)),
      call Game_PushApplyConfigCall (\<lambda>g. g_game g \<noteq> None) (\<lambda>g. g)] m = (r, m')"
  shows "\<exists>B. trace m' = trace m @ B \<and>
           (\<forall>(e, g)\<in>set B. e = Game_PushApplyConfigCall \<longrightarrow> IsBootstrapped g = Inr True)"
  using assms
  by (auto simp: step_def assign_def call_def Let_def log_event_def on_app_globals_def
        IsBootstrapped_def split: if_splits option.splits)

lemma exec_split3:
  "exec env (xs @ ys @ zs) m =
     and_then (exec env xs m) (\<lambda>m1. and_then (exec env ys m1) (exec env zs))"
  by (cases "exec env xs m") (auto simp: exec_append and_then_def split: option.splits)

lemma bootstrap_push_snapshot:
  assumes "exec env (phase1 env @ phase2) m = (r, m')"
  shows "\<exists>B. trace m' = trace m @ B \<and>
           (\<forall>(e, g)\<in>set B. e = Game_PushApplyConfigCall \<longrightarrow> IsBootstrapped g = Inr True)"
proof -
  let ?mid = "[assign Set_is_bootstrapped (\<lambda>g. g_app_globals g \<noteq> None)
        (on_app_globals (\<lambda>ag. ag\<lparr> is_bootstrapped := True \<rparr>)),
      call Game_PushApplyConfigCall (\<lambda>g. g_game g \<noteq> None) (\<lambda>g. g)]"
  let ?Q = "\<lambda>B. \<forall>(e, g)\<in>set B. e = Game_PushApplyConfigCall \<longrightarrow> IsBootstrapped g = Inr True"
  have split: "and_then (exec env (butlast (phase1 env)) m)
                 (\<lambda>m1. and_then (exec env ?mid m1) (exec env (tl phase2))) = (r, m')"
    using assms unfolding phase_split exec_split3 .
  obtain r1 m1 where e1: "exec env (butlast (phase1 env)) m = (r1, m1)"
    by (cases "exec env (butlast (phase1 env)) m")
  from exec_notin[OF e1 push_notin(1)] obtain B1 where
    B1: "trace m1 = trace m @ B1" "?Q B1" by force
  show ?thesis
  proof (cases r1)
    case (Some x)
    with split e1 have "m' = m1" by simp
    with B1 show ?thesis by blast
  next
    case None
    obtain r2 m2 where e2: "exec env ?mid m1 = (r2, m2)" by (cases "exec env ?mid m1")
    from set_then_push[OF e2] obtain B2 where B2: "trace m2 = trace m1 @ B2" "?Q B2" by blast
    show ?thesis
    proof (cases r2)
      case (Some x)
      with split e1 e2 None have "m' = m2" by (simp del: exec.simps)
      with B1 B2 show ?thesis by (intro exI[of _ "B1 @ B2"]) auto
    next
      case None2: None
      with split e1 e2 None have e3: "exec env (tl phase2) m2 = (r, m')"
        by (simp del: exec.simps)
      from exec_notin[OF e3 push_notin(2)] obtain B3 where
        B3: "trace m' = trace m2 @ B3" "?Q B3" by force
      with B1 B2 show ?thesis by (intro exI[of _ "B1 @ B2 @ B3"]) auto
    qed
  qed
qed

subsection \<open>Steady state, exit and handler\<close>

lemma step_call_cases:
  assumes "step env (call e n a) m = (r, m')" and "n (globals m)"
  shows "trace m' = trace m @ [(e, globals m)] \<and>
         ((\<exists>x. throws env e = Some x \<and> r = Some (Throw x) \<and> globals m' = globals m) \<or>
          (throws env e = None \<and> r = None \<and>
           globals m' = on_app_globals (collaborator env e) (a (globals m))))"
  using assms
  by (auto simp: step_def call_def Let_def log_event_def split: option.splits)

lemma on_app_globals_simps [simp]:
  "g_app (on_app_globals f g) = g_app g"
  "g_platform (on_app_globals f g) = g_platform g"
  "g_main_thread (on_app_globals f g) = g_main_thread g"
  "g_game (on_app_globals f g) = g_game g"
  "g_app_globals (on_app_globals f g) = map_option f (g_app_globals g)"
  by (simp_all add: on_app_globals_def)

lemma steady_state_trace:
  assumes "steady_state env m = (r, m')"
    and "g_app (globals m) = Some a" and "g_main_thread (globals m) \<noteq> None"
  shows "\<exists>S. trace m' = trace m @ S \<and>
           ((\<exists>x. throws env App_UsesEventLoop = Some x \<and> r = Some (Throw x) \<and>
                 map fst S = [App_UsesEventLoop]) \<or>
            (throws env App_UsesEventLoop = None \<and>
             map fst S = [App_UsesEventLoop,
                          if UsesEventLoop a then RunEventLoop False else App_PrimeEventPump])) \<and>
           g_platform (globals m') = g_platform (globals m) \<and>
           (g_app_globals (globals m') = None \<longleftrightarrow> g_app_globals (globals m) = None)"
proof -
  obtain r1 m1 where s1: "step env (call App_UsesEventLoop (\<lambda>g. g_app g \<noteq> None) (\<lambda>g. g)) m = (r1, m1)"
    by (cases "step env (call App_UsesEventLoop (\<lambda>g. g_app g \<noteq> None) (\<lambda>g. g)) m")
  from step_call_cases[OF s1] assms(2)
  have t1: "trace m1 = trace m @ [(App_UsesEventLoop, globals m)]" and
    c1: "(\<exists>x. throws env App_UsesEventLoop = Some x \<and> r1 = Some (Throw x) \<and> globals m1 = globals m) \<or>
         (throws env App_UsesEventLoop = None \<and> r1 = None \<and>
           globals m1 = on_app_globals (collaborator env App_UsesEventLoop) (globals m))"
    by simp_all
  from c1 show ?thesis
  proof
    assume "\<exists>x. throws env App_UsesEventLoop = Some x \<and> r1 = Some (Throw x) \<and> globals m1 = globals m"
    then obtain x where x: "throws env App_UsesEventLoop = Some x" "r1 = Some (Throw x)"
      "globals m1 = globals m" by blast
    with assms(1) s1 have "r = Some (Throw x)" "m' = m1" by (simp_all add: steady_state_def)
    with x t1 show ?thesis by simp
  next
    assume n: "throws env App_UsesEventLoop = None \<and> r1 = None \<and>
           globals m1 = on_app_globals (collaborator env App_UsesEventLoop) (globals m)"
    then have g1: "g_app (globals m1) = Some a" "g_main_thread (globals m1) \<noteq> None"
      "g_platform (globals m1) = g_platform (globals m)"
      "g_app_globals (globals m1) = None \<longleftrightarrow> g_app_globals (globals m) = None"
      using assms(2,3) by simp_all
    show ?thesis
    proof (cases "UsesEventLoop a")
      case True
      with assms(1) s1 n g1 have s2:
        "step env (call (RunEventLoop False) (\<lambda>g. g_main_thread g \<noteq> None) (\<lambda>g. g)) m1 = (r, m')"
        by (simp add: steady_state_def)
      from step_call_cases[OF s2] g1(2)
      have "trace m' = trace m1 @ [(RunEventLoop False, globals m1)]"
        "globals m' = globals m1 \<or>
         globals m' = on_app_globals (collaborator env (RunEventLoop False)) (globals m1)"
        by auto
      with t1 n g1 True show ?thesis by auto
    next
      case False
      with assms(1) s1 n g1 have s2:
        "step env (call App_PrimeEventPump (\<lambda>g. g_app g \<noteq> None) (\<lambda>g. g)) m1 = (r, m')"
        by (simp add: steady_state_def)
      from step_call_cases[OF s2] g1(1)
      have "trace m' = trace m1 @ [(App_PrimeEventPump, globals m1)]"
        "globals m' = globals m1 \<or>
         globals m' = on_app_globals (collaborator env App_PrimeEventPump) (globals m1)"
        by auto
      with t1 n g1 False show ?thesis by auto
    qed
  qed
qed

lemma exit_main_cases:
  assumes "exit_main env m = (out, m')"
  shows "(out = Crashed NullPointerDereference \<and> m' = m \<and> g_platform (globals m) = None) \<or>
         (g_platform (globals m) \<noteq> None \<and>
          trace m' = trace m @ [(Platform_WillExitMain False, globals m)] \<and>
          ((\<exists>x. throws env (Platform_WillExitMain False) = Some x \<and> out = Uncaught x) \<or>
           (throws env (Platform_WillExitMain False) = None \<and>
            out = (case field return_value (g_app_globals (globals m')) of
                     Inl f \<Rightarrow> Crashed f | Inr v \<Rightarrow> Returned v) \<and>
            (g_app_globals (globals m') = None \<longleftrightarrow> g_app_globals (globals m) = None))))"
  using assms
  by (auto simp: exit_main_def step_def call_def Let_def log_event_def
        split: option.splits if_splits sum.splits)

lemma catch_std_exception_cases:
  assumes "catch_std_exception b env what m = (out, m')"
  shows "\<exists>m2. m2 = m\<lparr> trace := trace m @
             [(ReportFatalError (''Unhandled exception in BallisticaMain(): '' @ what) True, globals m),
              (HandleFatalError (\<not> blessing_policy b (globals m)) True, globals m)] \<rparr> \<and>
          (if FatalError_HandleFatalError env (globals m) (\<not> blessing_policy b (globals m)) True
                \<noteq> Returns True
           then m' = m2 \<and> out = (if blessing_policy b (globals m) then Rethrown what else Exited 1)
           else exit_main env m2 = (out, m'))"
  using assms
  by (auto simp: catch_std_exception_def IsUnmodifiedBlessedBuild_policy Let_def log_event_def
        HandleFatalError_top)

subsection \<open>The trace of a whole run\<close>

lemma bootstrap_first:
  assumes "exec env (phase1 env @ phase2) m = (r, m')"
  shows "\<exists>B'. trace m' = trace m @ (New_AppGlobals, globals m) # B'"
proof -
  obtain s ss where sp: "phase1 env @ phase2 = s # ss" "ev s = New_AppGlobals" "needs s = (\<lambda>g. True)"
    by (simp add: phase1_def Let_def alloc_def)
  obtain r1 m1 where s1: "step env s m = (r1, m1)" by (cases "step env s m")
  from step_trace[OF s1] sp have t1: "trace m1 = trace m @ [(New_AppGlobals, globals m)]" by auto
  show ?thesis
  proof (cases r1)
    case None
    with assms sp s1 have "exec env ss m1 = (r, m')" by simp
    from exec_trace[OF this] t1 show ?thesis by auto
  next
    case (Some x)
    with assms sp s1 have "m' = m1" by simp
    with t1 show ?thesis by simp
  qed
qed

lemma bootstrap_trace:
  assumes "exec env (phase1 env @ phase2) m = (r, m')"
  shows "\<exists>B k. trace m' = trace m @ B \<and> k \<le> length bootstrap_events \<and>
           map fst B = take k bootstrap_events \<and> (r = None \<longrightarrow> k = length bootstrap_events) \<and>
           B \<noteq> [] \<and> hd B = (New_AppGlobals, globals m) \<and>
           (\<forall>(e, g)\<in>set B. e = Game_PushApplyConfigCall \<longrightarrow> IsBootstrapped g = Inr True)"
proof -
  from exec_trace[OF assms] obtain B k where B: "trace m' = trace m @ B"
    "k \<le> length (phase1 env @ phase2)" "map fst B = take k (map ev (phase1 env @ phase2))"
    "r = None \<longrightarrow> k = length (phase1 env @ phase2)" by blast
  from bootstrap_first[OF assms] B(1) have h: "B \<noteq> []" "hd B = (New_AppGlobals, globals m)"
    by auto
  from bootstrap_push_snapshot[OF assms] B(1)
  have p: "\<forall>(e, g)\<in>set B. e = Game_PushApplyConfigCall \<longrightarrow> IsBootstrapped g = Inr True"
    by auto
  have l: "length (phase1 env @ phase2) = length bootstrap_events"
    using bootstrap_events_eq[of env] by (metis length_map)
  from B h p l show ?thesis unfolding bootstrap_events_eq by metis
qed

lemma crash_test_eq:
  "crash_test b env m =
     (if BA_CRASH_TEST env = Some ''1'' then FatalError b env ''Fatal-Error-Test'' m else (None, m))"
  by (simp add: crash_test_def split: option.splits)

lemma try_block_trace:
  assumes "try_block b env initial_machine = (r, m)"
  shows "\<exists>A B S k. trace m = A @ B @ S \<and>
     A = (if BA_CRASH_TEST env = Some ''1''
          then [(ReportFatalError ''Fatal-Error-Test'' False, initial_globals),
                (HandleFatalError (\<not> blessing_policy b initial_globals) False, initial_globals)]
          else []) \<and>
     k \<le> length bootstrap_events \<and> map fst B = take k bootstrap_events \<and>
     (\<forall>(e, g)\<in>set B. e = Game_PushApplyConfigCall \<longrightarrow> IsBootstrapped g = Inr True) \<and>
     (if BA_CRASH_TEST env = Some ''1''
      then r = (if blessing_policy b initial_globals then Some Abort else Some (Exit 1)) \<and>
           B = [] \<and> S = []
      else B \<noteq> [] \<and> hd B = (New_AppGlobals, initial_globals)) \<and>
     ((S = [] \<and> r \<noteq> None) \<or>
      (k = length bootstrap_events \<and>
        ((\<exists>x. throws env App_UsesEventLoop = Some x \<and> r = Some (Throw x) \<and>
              map fst S = [App_UsesEventLoop]) \<or>
         (throws env App_UsesEventLoop = None \<and>
          map fst S = [App_UsesEventLoop,
             if UsesEventLoop (created_app env) then RunEventLoop False else App_PrimeEventPump])))) \<and>
     (r = None \<longrightarrow> g_platform (globals m) \<noteq> None \<and> g_app_globals (globals m) \<noteq> None)"
proof -
  let ?A = "if BA_CRASH_TEST env = Some ''1''
          then [(ReportFatalError ''Fatal-Error-Test'' False, initial_globals),
                (HandleFatalError (\<not> blessing_policy b initial_globals) False, initial_globals)]
          else []"
  let ?abort = "BA_CRASH_TEST env = Some ''1''"
  let ?sg = "if blessing_policy b initial_globals then Some Abort else Some (Exit 1)"
  obtain r0 m0 where c: "crash_test b env initial_machine = (r0, m0)"
    by (cases "crash_test b env initial_machine")
  then have m0: "trace m0 = ?A" "globals m0 = initial_globals"
    "r0 = (if ?abort then ?sg else None)"
    by (auto simp: crash_test_eq FatalError_eq initial_machine_def initial_globals_def
          split: if_splits)
  show ?thesis
  proof (cases ?abort)
    case True
    with m0 c assms have "r = ?sg" "m = m0"
      by (auto simp: try_block_def split: if_splits)
    with m0 True show ?thesis
      by (intro exI[of _ ?A] exI[of _ "[]"] exI[of _ 0]) simp
  next
    case False
    with m0 have r0: "r0 = None" by simp
    obtain r1 m1 where e: "exec env (phase1 env @ phase2) m0 = (r1, m1)"
      by (cases "exec env (phase1 env @ phase2) m0")
    from bootstrap_trace[OF e] m0 obtain B k where B: "trace m1 = ?A @ B"
      "k \<le> length bootstrap_events" "map fst B = take k bootstrap_events"
      "r1 = None \<longrightarrow> k = length bootstrap_events" "B \<noteq> []" "hd B = (New_AppGlobals, initial_globals)"
      "\<forall>(e, g)\<in>set B. e = Game_PushApplyConfigCall \<longrightarrow> IsBootstrapped g = Inr True"
      by auto
    show ?thesis
    proof (cases r1)
      case (Some x)
      with assms c r0 e have "r = Some x" "m = m1" by (simp_all add: try_block_def)
      with B False show ?thesis
        by (intro exI[of _ ?A] exI[of _ B] exI[of _ "[]"] exI[of _ k]) simp
    next
      case None
      with assms c r0 e have s: "steady_state env m1 = (r, m)" by (simp add: try_block_def)
      note g = bootstrapped_globals[OF e[unfolded None]]
      from steady_state_trace[OF s g(1)] g(3) obtain S where S: "trace m = trace m1 @ S"
        "(\<exists>x. throws env App_UsesEventLoop = Some x \<and> r = Some (Throw x) \<and>
                 map fst S = [App_UsesEventLoop]) \<or>
            (throws env App_UsesEventLoop = None \<and>
             map fst S = [App_UsesEventLoop,
                if UsesEventLoop (created_app env) then RunEventLoop False else App_PrimeEventPump])"
        "g_platform (globals m) = g_platform (globals m1)"
        "g_app_globals (globals m) = None \<longleftrightarrow> g_app_globals (globals m1) = None"
        by auto
      from B None have k: "k = length bootstrap_events" by simp
      from S g have p: "g_platform (globals m) \<noteq> None \<and> g_app_globals (globals m) \<noteq> None"
        by simp
      from B S k p False show ?thesis
        by (intro exI[of _ ?A] exI[of _ B] exI[of _ S] exI[of _ k]) simp
    qed
  qed
qed








lemma BallisticaMain_tail:
  assumes "try_block b env initial_machine = (r, m)"
  shows "\<exists>T. trace (snd (BallisticaMain b env)) = trace m @ T \<and>
    (case r of
       None \<Rightarrow>
         (g_platform (globals m) \<noteq> None \<and> T = [(Platform_WillExitMain False, globals m)] \<and>
          ((\<exists>x. throws env (Platform_WillExitMain False) = Some x \<and>
                fst (BallisticaMain b env) = Uncaught x) \<or>
           (throws env (Platform_WillExitMain False) = None \<and>
            (\<exists>v. field return_value (g_app_globals (globals (snd (BallisticaMain b env)))) = Inr v \<and>
                 fst (BallisticaMain b env) = Returned v))))
     | Some (Throw (StdException w)) \<Rightarrow>
         (\<exists>T'. T = [(ReportFatalError (''Unhandled exception in BallisticaMain(): '' @ w) True, globals m),
                    (HandleFatalError (\<not> blessing_policy b (globals m)) True, globals m)] @ T' \<and>
           (if FatalError_HandleFatalError env (globals m) (\<not> blessing_policy b (globals m)) True
                 \<noteq> Returns True
            then T' = [] \<and>
                 fst (BallisticaMain b env) =
                   (if blessing_policy b (globals m) then Rethrown w else Exited 1)
            else T' = [(Platform_WillExitMain False, globals m)] \<and>
              ((\<exists>x. throws env (Platform_WillExitMain False) = Some x \<and>
                    fst (BallisticaMain b env) = Uncaught x) \<or>
               (throws env (Platform_WillExitMain False) = None \<and>
                fst (BallisticaMain b env) =
                  (case field return_value (g_app_globals (globals (snd (BallisticaMain b env)))) of
                     Inl f \<Rightarrow> Crashed f | Inr v \<Rightarrow> Returned v) \<and>
                (g_app_globals (globals (snd (BallisticaMain b env))) = None \<longleftrightarrow>
                   g_app_globals (globals m) = None)))))
     | Some (Throw OtherException) \<Rightarrow> T = [] \<and> fst (BallisticaMain b env) = Uncaught OtherException
     | Some (Crash f) \<Rightarrow> T = [] \<and> fst (BallisticaMain b env) = Crashed f
     | Some Abort \<Rightarrow> T = [] \<and> fst (BallisticaMain b env) = Aborted
     | Some (Exit c) \<Rightarrow> T = [] \<and> fst (BallisticaMain b env) = Exited c)"
proof (cases r)
  case None
  from try_block_trace[OF assms] None
  have p: "g_platform (globals m) \<noteq> None" "g_app_globals (globals m) \<noteq> None" by auto
  obtain out m' where x: "exit_main env m = (out, m')" by (cases "exit_main env m")
  with assms None have bm: "BallisticaMain b env = (out, m')" by (simp add: BallisticaMain_def)
  from exit_main_cases[OF x] p bm None show ?thesis
    by (auto split: sum.splits)
next
  case (Some sg)
  show ?thesis
  proof (cases sg)
    case (Throw t)
    show ?thesis
    proof (cases t)
      case (StdException w)
      obtain out m' where c: "catch_std_exception b env w m = (out, m')"
        by (cases "catch_std_exception b env w m")
      with assms Some Throw StdException have bm: "BallisticaMain b env = (out, m')"
        by (simp add: BallisticaMain_def)
      let ?m2 = "m\<lparr> trace := trace m @
             [(ReportFatalError (''Unhandled exception in BallisticaMain(): '' @ w) True, globals m),
              (HandleFatalError (\<not> blessing_policy b (globals m)) True, globals m)] \<rparr>"
      let ?h = "FatalError_HandleFatalError env (globals m) (\<not> blessing_policy b (globals m)) True"
      from catch_std_exception_cases[OF c]
      have cc: "if ?h \<noteq> Returns True
           then m' = ?m2 \<and> out = (if blessing_policy b (globals m) then Rethrown w else Exited 1)
           else exit_main env ?m2 = (out, m')" by simp
      show ?thesis
      proof (cases "?h = Returns True")
        case False
        with cc bm Some Throw StdException show ?thesis by simp
      next
        case True
        then have p: "g_platform (globals m) \<noteq> None" by (simp add: HandleFatalError_top)
        from True cc have "exit_main env ?m2 = (out, m')" by simp
        from exit_main_cases[OF this] p True bm Some Throw StdException show ?thesis
          by auto
      qed
    next
      case OtherException
      with assms Some Throw show ?thesis by (simp add: BallisticaMain_def)
    qed
  next
    case (Crash f)
    with assms Some show ?thesis by (simp add: BallisticaMain_def)
  next
    case Abort
    with assms Some show ?thesis by (simp add: BallisticaMain_def)
  next
    case (Exit c)
    with assms Some show ?thesis by (simp add: BallisticaMain_def)
  qed
qed

lemma BallisticaMain_tail_events:
  assumes t: "try_block b env initial_machine = (r, m)"
  shows "\<exists>T. trace (snd (BallisticaMain b env)) = trace m @ T \<and>
     (map fst T = [] \<or> map fst T = [Platform_WillExitMain False] \<or>
      (\<exists>w g. map fst T = [ReportFatalError (''Unhandled exception in BallisticaMain(): '' @ w) True,
                   HandleFatalError (\<not> blessing_policy b g) True] \<or>
             map fst T = [ReportFatalError (''Unhandled exception in BallisticaMain(): '' @ w) True,
                  HandleFatalError (\<not> blessing_policy b g) True, Platform_WillExitMain False]))"
proof -
  let ?R = "\<lambda>w g. [ReportFatalError (''Unhandled exception in BallisticaMain(): '' @ w) True,
                   HandleFatalError (\<not> blessing_policy b g) True]"
  from BallisticaMain_tail[OF t] obtain T where T1: "trace (snd (BallisticaMain b env)) = trace m @ T"
    and Tc: "case r of
       None \<Rightarrow>
         (g_platform (globals m) \<noteq> None \<and> T = [(Platform_WillExitMain False, globals m)] \<and>
          ((\<exists>x. throws env (Platform_WillExitMain False) = Some x \<and>
                fst (BallisticaMain b env) = Uncaught x) \<or>
           (throws env (Platform_WillExitMain False) = None \<and>
            (\<exists>v. field return_value (g_app_globals (globals (snd (BallisticaMain b env)))) = Inr v \<and>
                 fst (BallisticaMain b env) = Returned v))))
     | Some (Throw (StdException w)) \<Rightarrow>
         (\<exists>T'. T = [(ReportFatalError (''Unhandled exception in BallisticaMain(): '' @ w) True, globals m),
                    (HandleFatalError (\<not> blessing_policy b (globals m)) True, globals m)] @ T' \<and>
           (if FatalError_HandleFatalError env (globals m) (\<not> blessing_policy b (globals m)) True
                 \<noteq> Returns True
            then T' = [] \<and>
                 fst (BallisticaMain b env) =
                   (if blessing_policy b (globals m) then Rethrown w else Exited 1)
            else T' = [(Platform_WillExitMain False, globals m)] \<and>
              ((\<exists>x. throws env (Platform_WillExitMain False) = Some x \<and>
                    fst (BallisticaMain b env) = Uncaught x) \<or>
               (throws env (Platform_WillExitMain False) = None \<and>
                fst (BallisticaMain b env) =
                  (case field return_value (g_app_globals (globals (snd (BallisticaMain b env)))) of
                     Inl f \<Rightarrow> Crashed f | Inr v \<Rightarrow> Returned v) \<and>
                (g_app_globals (globals (snd (BallisticaMain b env))) = None \<longleftrightarrow>
                   g_app_globals (globals m) = None)))))
     | Some (Throw OtherException) \<Rightarrow> T = [] \<and> fst (BallisticaMain b env) = Uncaught OtherException
     | Some (Crash f) \<Rightarrow> T = [] \<and> fst (BallisticaMain b env) = Crashed f
     | Some Abort \<Rightarrow> T = [] \<and> fst (BallisticaMain b env) = Aborted
     | Some (Exit c) \<Rightarrow> T = [] \<and> fst (BallisticaMain b env) = Exited c"
    by (elim exE conjE) (rule that)
  have T2: "map fst T = [] \<or> map fst T = [Platform_WillExitMain False] \<or>
      (\<exists>w g. map fst T = ?R w g \<or> map fst T = ?R w g @ [Platform_WillExitMain False])"
  proof (cases r)
    case None
    with Tc show ?thesis by simp
  next
    case (Some sg)
    show ?thesis
    proof (cases sg)
      case (Throw th)
      show ?thesis
      proof (cases th)
        case (StdException w)
        with Tc Some Throw obtain T' where
          T': "T = [(ReportFatalError (''Unhandled exception in BallisticaMain(): '' @ w) True, globals m),
                    (HandleFatalError (\<not> blessing_policy b (globals m)) True, globals m)] @ T'"
          "T' = [] \<or> T' = [(Platform_WillExitMain False, globals m)]"
          by (auto split: if_splits)
        from T'(2) have "map fst T = ?R w (globals m) \<or>
            map fst T = ?R w (globals m) @ [Platform_WillExitMain False]"
          unfolding T'(1) by auto
        then show ?thesis
          by (rule_tac disjI2, rule_tac disjI2, rule_tac exI[of _ w], rule_tac exI[of _ "globals m"])
      next
        case OtherException
        with Tc Some Throw show ?thesis by simp
      qed
    next
      case (Crash f)
      with Tc Some show ?thesis by simp
    next
      case Abort
      with Tc Some show ?thesis by simp
    next
      case (Exit c)
      with Tc Some show ?thesis by simp
    qed
  qed
  from T2 have "map fst T = [] \<or> map fst T = [Platform_WillExitMain False] \<or>
      (\<exists>w g. map fst T = [ReportFatalError (''Unhandled exception in BallisticaMain(): '' @ w) True,
                   HandleFatalError (\<not> blessing_policy b g) True] \<or>
             map fst T = [ReportFatalError (''Unhandled exception in BallisticaMain(): '' @ w) True,
                  HandleFatalError (\<not> blessing_policy b g) True, Platform_WillExitMain False])"
    by simp
  with T1 show ?thesis by (intro exI[of _ T] conjI)
qed

lemma BallisticaMain_events:
  "\<exists>k S T. events (BallisticaMain b env) =
       (if BA_CRASH_TEST env = Some ''1''
        then [ReportFatalError ''Fatal-Error-Test'' False,
              HandleFatalError (\<not> blessing_policy b initial_globals) False]
        else []) @ take k bootstrap_events @ S @ T \<and>
     k \<le> length bootstrap_events \<and>
     (S = [] \<or>
      (k = length bootstrap_events \<and>
       ((throws env App_UsesEventLoop \<noteq> None \<and> S = [App_UsesEventLoop]) \<or>
        (throws env App_UsesEventLoop = None \<and>
         S = [App_UsesEventLoop,
              if UsesEventLoop (created_app env) then RunEventLoop False else App_PrimeEventPump])))) \<and>
     (T = [] \<or> T = [Platform_WillExitMain False] \<or>
      (\<exists>w g. T = [ReportFatalError (''Unhandled exception in BallisticaMain(): '' @ w) True,
                   HandleFatalError (\<not> blessing_policy b g) True] \<or>
             T = [ReportFatalError (''Unhandled exception in BallisticaMain(): '' @ w) True,
                  HandleFatalError (\<not> blessing_policy b g) True, Platform_WillExitMain False]))"
proof -
  obtain r m where t: "try_block b env initial_machine = (r, m)"
    by (cases "try_block b env initial_machine")
  let ?A = "if BA_CRASH_TEST env = Some ''1''
          then [(ReportFatalError ''Fatal-Error-Test'' False, initial_globals),
                (HandleFatalError (\<not> blessing_policy b initial_globals) False, initial_globals)]
          else []"
  let ?Ae = "if BA_CRASH_TEST env = Some ''1''
        then [ReportFatalError ''Fatal-Error-Test'' False,
              HandleFatalError (\<not> blessing_policy b initial_globals) False]
        else []"
  let ?R = "\<lambda>w g. [ReportFatalError (''Unhandled exception in BallisticaMain(): '' @ w) True,
                   HandleFatalError (\<not> blessing_policy b g) True]"
  from try_block_trace[OF t] obtain A B S k where
    tb1: "trace m = A @ B @ S" and tb2: "A = ?A" and
    tb3: "k \<le> length bootstrap_events" and tb4: "map fst B = take k bootstrap_events" and
    tb5: "(S = [] \<and> r \<noteq> None) \<or>
      (k = length bootstrap_events \<and>
        ((\<exists>x. throws env App_UsesEventLoop = Some x \<and> r = Some (Throw x) \<and>
              map fst S = [App_UsesEventLoop]) \<or>
         (throws env App_UsesEventLoop = None \<and>
          map fst S = [App_UsesEventLoop,
             if UsesEventLoop (created_app env) then RunEventLoop False else App_PrimeEventPump])))"
    by (elim exE conjE) (rule that)
  from BallisticaMain_tail_events[OF t] obtain T where
    T1: "trace (snd (BallisticaMain b env)) = trace m @ T" and
    T2: "map fst T = [] \<or> map fst T = [Platform_WillExitMain False] \<or>
      (\<exists>w g. map fst T = [ReportFatalError (''Unhandled exception in BallisticaMain(): '' @ w) True,
                   HandleFatalError (\<not> blessing_policy b g) True] \<or>
             map fst T = [ReportFatalError (''Unhandled exception in BallisticaMain(): '' @ w) True,
                  HandleFatalError (\<not> blessing_policy b g) True, Platform_WillExitMain False])"
    by (elim exE conjE) (rule that)
  have S2: "map fst S = [] \<or>
      (k = length bootstrap_events \<and>
       ((throws env App_UsesEventLoop \<noteq> None \<and> map fst S = [App_UsesEventLoop]) \<or>
        (throws env App_UsesEventLoop = None \<and>
         map fst S = [App_UsesEventLoop,
              if UsesEventLoop (created_app env) then RunEventLoop False else App_PrimeEventPump])))"
    using tb5 by auto
  have A2: "map fst A = ?Ae" unfolding tb2 by simp
  have e: "events (BallisticaMain b env) = ?Ae @ take k bootstrap_events @ map fst S @ map fst T"
    using T1 tb1 tb4 A2 by (simp add: events_def events_of_def)
  from T2 have T3: "map fst T = [] \<or> map fst T = [Platform_WillExitMain False] \<or>
      (\<exists>w g. map fst T = [ReportFatalError (''Unhandled exception in BallisticaMain(): '' @ w) True,
                   HandleFatalError (\<not> blessing_policy b g) True] \<or>
             map fst T = [ReportFatalError (''Unhandled exception in BallisticaMain(): '' @ w) True,
                  HandleFatalError (\<not> blessing_policy b g) True, Platform_WillExitMain False])"
    by simp
  show ?thesis
    apply (rule exI[of _ k])
    apply (rule exI[of _ "map fst S"])
    apply (rule exI[of _ "map fst T"])
    apply (intro conjI)
       apply (rule e)
      apply (rule tb3)
     apply (rule S2)
    apply (rule T3)
    done
qed

subsection \<open>Properties of the clock\<close>

text \<open>
  An addition of a clamped delta is exact while the accumulator is at most \<open>2^63 - 251\<close>.
\<close>

lemma sint_add_small:
  fixes a p :: "64 word"
  assumes "sint a \<le> 2 ^ 63 - 251" "0 \<le> sint p" "sint p \<le> 250"
  shows "sint (a + p) = sint a + sint p"
proof -
  have lo: "- (2 ^ 63) \<le> sint a" using sint_ge[of a] by simp
  have "sint (a + p) = signed_take_bit 63 (sint a + sint p)"
    by (simp add: sint_word_ariths)
  also have "\<dots> = sint a + sint p"
    using assms lo by (intro signed_take_bit_int_eq_self) auto
  finally show ?thesis .
qed

text \<open>
  One call: the clamped delta lies in \<open>[0, 250]\<close> whatever the two raw readings are, also
  when their difference wraps around.
\<close>

lemma GetRealTime_step:
  assumes "sint (real_time ag) \<le> 2 ^ 63 - 251" and "GetRealTime t ag = (r, ag')"
  shows "real_time ag' = r \<and> sint (real_time ag) \<le> sint r \<and> sint r - sint (real_time ag) \<le> 250"
proof (cases "t = last_real_time_ticks ag")
  case True
  with assms(2) show ?thesis by (auto simp: GetRealTime_def)
next
  case False
  define p :: "64 word" where
    "p = (if t - last_real_time_ticks ag <s 0 then 0
          else if 250 <s t - last_real_time_ticks ag then 250 else t - last_real_time_ticks ag)"
  have r: "0 \<le> sint p" "sint p \<le> 250"
    by (auto simp: p_def word_sless_alt not_less)
  have "r = real_time ag + p" "real_time ag' = r"
    using False assms(2) by (auto simp: GetRealTime_def p_def Let_def)
  with sint_add_small[OF assms(1) r] r show ?thesis by simp
qed

lemma GetRealTime_calls_lower:
  "sint (real_time ag) + 250 * int (length ts) < 2 ^ 63 \<Longrightarrow>
     \<forall>r \<in> set (GetRealTime_calls ts ag). sint (real_time ag) \<le> sint r"
proof (induction ts arbitrary: ag)
  case Nil
  show ?case by simp
next
  case (Cons t ts)
  obtain r ag' where s: "GetRealTime t ag = (r, ag')"
    by (cases "GetRealTime t ag")
  from Cons.prems have b: "sint (real_time ag) \<le> 2 ^ 63 - 251" by simp
  note st = GetRealTime_step[OF b s]
  from st Cons.prems have "sint (real_time ag') + 250 * int (length ts) < 2 ^ 63" by simp
  from Cons.IH[OF this] st s show ?case by fastforce
qed

lemma GetRealTime_calls_sorted:
  "sint (real_time ag) + 250 * int (length ts) < 2 ^ 63 \<Longrightarrow>
     sorted (map sint (GetRealTime_calls ts ag))"
proof (induction ts arbitrary: ag)
  case Nil
  show ?case by simp
next
  case (Cons t ts)
  obtain r ag' where s: "GetRealTime t ag = (r, ag')"
    by (cases "GetRealTime t ag")
  from Cons.prems have b: "sint (real_time ag) \<le> 2 ^ 63 - 251" by simp
  note st = GetRealTime_step[OF b s]
  from st Cons.prems have n: "sint (real_time ag') + 250 * int (length ts) < 2 ^ 63" by simp
  from Cons.IH[OF n] GetRealTime_calls_lower[OF n] st s show ?case by simp
qed

lemma GetRealTime_calls_increment:
  "sint (real_time ag) + 250 * int (length ts) < 2 ^ 63 \<Longrightarrow>
   Suc n < length (GetRealTime_calls ts ag) \<Longrightarrow>
     sint (GetRealTime_calls ts ag ! Suc n) - sint (GetRealTime_calls ts ag ! n) \<le> 250"
proof (induction ts arbitrary: ag n)
  case Nil
  then show ?case by simp
next
  case (Cons t ts)
  obtain r ag' where s: "GetRealTime t ag = (r, ag')"
    by (cases "GetRealTime t ag")
  from Cons.prems(1) have b: "sint (real_time ag) \<le> 2 ^ 63 - 251" by simp
  note st = GetRealTime_step[OF b s]
  from st Cons.prems(1) have n: "sint (real_time ag') + 250 * int (length ts) < 2 ^ 63" by simp
  show ?case
  proof (cases n)
    case 0
    with Cons.prems s obtain t' ts' where ts: "ts = t' # ts'"
      by (cases ts) auto
    obtain r' ag'' where s': "GetRealTime t' ag' = (r', ag'')"
      by (cases "GetRealTime t' ag'")
    from n ts have b': "sint (real_time ag') \<le> 2 ^ 63 - 251" by simp
    from st GetRealTime_step[OF b' s'] 0 s s' ts show ?thesis
      by simp
  next
    case (Suc m)
    with Cons.prems s Cons.IH[OF n, of m] show ?thesis
      by simp
  qed
qed

text \<open>
  Readings that advance by 300 each time make every call add the full 250: after \<open>n\<close> such
  calls the accumulator has grown by \<open>250 * n\<close>, modulo \<open>2^64\<close>.
\<close>

lemma GetRealTime_jump:
  "GetRealTime (last_real_time_ticks ag + 300) ag =
     (real_time ag + 250, ag\<lparr> real_time := real_time ag + 250,
                               last_real_time_ticks := last_real_time_ticks ag + 300 \<rparr>)"
  by (simp add: GetRealTime_def Let_def word_sless_alt)

lemma GetRealTime_climb:
  "GetRealTime_calls (map (\<lambda>i. last_real_time_ticks ag + 300 * of_nat (Suc i)) [0..<n]) ag =
     map (\<lambda>i. real_time ag + 250 * of_nat (Suc i)) [0..<n]"
proof (induction n arbitrary: ag)
  case 0
  show ?case by simp
next
  case (Suc n)
  let ?ag' = "ag\<lparr> real_time := real_time ag + 250,
                  last_real_time_ticks := last_real_time_ticks ag + 300 \<rparr>"
  have u: "[0..<Suc n] = 0 # map Suc [0..<n]"
    by (simp add: upt_conv_Cons map_Suc_upt del: upt_Suc)
  have "GetRealTime_calls (map (\<lambda>i. last_real_time_ticks ag + 300 * of_nat (Suc i)) [0..<Suc n]) ag =
      (real_time ag + 250) #
      GetRealTime_calls (map (\<lambda>i. last_real_time_ticks ?ag' + 300 * of_nat (Suc i)) [0..<n]) ?ag'"
    unfolding u using GetRealTime_jump[of ag]
    by (simp add: comp_def algebra_simps del: upt_Suc)
  also have "\<dots> = (real_time ag + 250) # map (\<lambda>i. real_time ?ag' + 250 * of_nat (Suc i)) [0..<n]"
    by (simp only: Suc.IH)
  also have "\<dots> = map (\<lambda>i. real_time ag + 250 * of_nat (Suc i)) [0..<Suc n]"
    unfolding u by (simp add: comp_def algebra_simps del: upt_Suc)
  finally show ?case .
qed

lemma GetRealTime_wraps_from_start:
  "\<not> sorted (map sint (GetRealTime_calls
        (map (\<lambda>i. 300 * of_nat (Suc i)) [0..<36893488147419104]) (new_AppGlobals 0)))"
proof -
  let ?N = "36893488147419104 :: nat"
  let ?rs = "map (\<lambda>i. (250 :: 64 word) * of_nat (Suc i)) [0..<?N]"
  have e: "GetRealTime_calls (map (\<lambda>i. 300 * of_nat (Suc i)) [0..<?N]) (new_AppGlobals 0) = ?rs"
    using GetRealTime_climb[of "new_AppGlobals 0" ?N] by (simp add: new_AppGlobals_def)
  have a: "sint (?rs ! 36893488147419102) = 9223372036854775750"
    by (simp del: upt_Suc)
  have b: "sint (?rs ! 36893488147419103) = - 9223372036854775616"
    by (simp del: upt_Suc)
  have "\<not> sorted (map sint ?rs)"
  proof
    assume "sorted (map sint ?rs)"
    then have "map sint ?rs ! 36893488147419102 \<le> map sint ?rs ! 36893488147419103"
      by (rule sorted_nth_mono) simp_all
    with a b show False by (simp del: upt_Suc)
  qed
  with e show ?thesis by simp
qed

text \<open>
  Claim C3, as the code has it. Whatever raw tick readings the platform delivers (deltas
  that are negative, above 250, or that wrap around), and from whatever clock state the
  calls start: as long as the accumulator cannot overflow during the calls (its value plus
  250 for each call stays below \<open>2^63\<close>), the values returned by successive
  \<^verbatim>\<open>GetRealTime()\<close> calls never decrease (the list is sorted, so every later value is at
  least every earlier one), and each value exceeds its predecessor by at most 250.
\<close>

theorem GetRealTime_monotone_bounded:
  assumes "sint (real_time ag) + 250 * int (length ts) < 2 ^ 63"
  shows "sorted (map sint (GetRealTime_calls ts ag)) \<and>
   (\<forall>n. Suc n < length (GetRealTime_calls ts ag) \<longrightarrow>
      sint (GetRealTime_calls ts ag ! n) \<le> sint (GetRealTime_calls ts ag ! Suc n) \<and>
      sint (GetRealTime_calls ts ag ! Suc n) - sint (GetRealTime_calls ts ag ! n) \<le> 250)"
proof -
  have s: "sorted (map sint (GetRealTime_calls ts ag))"
    using assms by (rule GetRealTime_calls_sorted)
  have "sint (GetRealTime_calls ts ag ! n) \<le> sint (GetRealTime_calls ts ag ! Suc n)"
    if "Suc n < length (GetRealTime_calls ts ag)" for n
    using sorted_nth_mono[OF s, of n "Suc n"] that by simp
  with s show ?thesis
    using assms by (simp add: GetRealTime_calls_increment)
qed

text \<open>
  The theorem from the initial clock state at the readings \<^verbatim>\<open>INT64_MAX\<close>, \<^verbatim>\<open>INT64_MIN\<close>, 0:
  the first delta is clamped to 250, the second wraps around to 1, the third to
  \<^verbatim>\<open>INT64_MIN\<close> and counts as 0.
\<close>

theorem GetRealTime_monotone_bounded_witness:
  "sint (real_time (new_AppGlobals 0)) +
     250 * int (length [9223372036854775807, - 9223372036854775808, 0 :: millisecs_t]) < 2 ^ 63 \<and>
   Suc 1 < length (GetRealTime_calls [9223372036854775807, - 9223372036854775808, 0]
       (new_AppGlobals 0)) \<and>
   map sint (GetRealTime_calls [9223372036854775807, - 9223372036854775808, 0]
       (new_AppGlobals 0)) = [250, 251, 251] \<and>
   sorted (map sint (GetRealTime_calls [9223372036854775807, - 9223372036854775808, 0]
       (new_AppGlobals 0)))"
  using GetRealTime_monotone_bounded
    [of "new_AppGlobals 0" "[9223372036854775807, - 9223372036854775808, 0]"]
  by (simp add: GetRealTime_def new_AppGlobals_def word_sless_alt)

text \<open>
  Claim C3 as the spec has it, for every sequence of readings, fails at the width of the
  accumulator. From the initial clock state, readings that advance by 300 each time add
  250 per call; the call number 36893488147419103 returns 9223372036854775750 and the next
  one wraps around to -9223372036854775616, so the returned values are not non-decreasing.
  From a clock that has run up to 9223372036854775707, two calls are enough.
\<close>

theorem GetRealTime_overflow_counterexample:
  "\<not> sorted (map sint (GetRealTime_calls
        (map (\<lambda>i. 300 * of_nat (Suc i)) [0..<36893488147419104]) (new_AppGlobals 0))) \<and>
   map sint (GetRealTime_calls [0, 1000]
        ((new_AppGlobals 0)\<lparr> real_time := 9223372036854775707 \<rparr>)) =
     [9223372036854775707, - 9223372036854775659]"
proof -
  have "map sint (GetRealTime_calls [0, 1000]
        ((new_AppGlobals 0)\<lparr> real_time := 9223372036854775707 \<rparr>)) =
     [9223372036854775707, - 9223372036854775659]"
    by (simp add: GetRealTime_def new_AppGlobals_def word_sless_alt)
  with GetRealTime_wraps_from_start show ?thesis by simp
qed

text \<open>
  Claim C4. From the initial clock state (accumulator 0, last-observed raw ticks 0), four
  successive calls that observe the raw ticks 0, 100, 99 and 5000 return exactly 0, 100,
  100 and 350: the delta 99 - 100 counts as 0 and the delta 5000 - 99 counts as 250.
\<close>

theorem GetRealTime_example:
  "GetRealTime_calls [0, 100, 99, 5000] (new_AppGlobals cur) = [0, 100, 100, 350]"
  by (simp add: GetRealTime_def new_AppGlobals_def word_sless_alt)

subsection \<open>The classifier\<close>

text \<open>
  Claim C2. \<^verbatim>\<open>IsUnmodifiedBlessedBuild()\<close> never faults and returns what the five rules of
  the policy give, taken in their order with the first matching rule deciding: a debug
  build, developer commands run, a custom scripting directory and a missing embedded hash
  each give false; otherwise the result is true exactly when the runtime hash equals the
  embedded one or has not been computed yet (it is empty, or there is no global state).
\<close>

theorem IsUnmodifiedBlessedBuild_follows_policy:
  "IsUnmodifiedBlessedBuild b g = Inr (blessing_policy b g)"
  by (rule IsUnmodifiedBlessedBuild_policy)

text \<open>Unfolding rules for evaluating a run on a concrete build and environment.\<close>

lemmas run_defs = BallisticaMain_def try_block_def crash_test_def phase1_def phase2_def
  steady_state_def exit_main_def catch_std_exception_def FatalError_eq
  FatalError_HandleFatalError_def step_def call_def alloc_def assign_def Let_def log_event_def on_app_globals_def push_back_def
  new_Thread_def new_AppGlobals_def initial_machine_def initial_globals_def
  IsUnmodifiedBlessedBuild_policy blessing_policy_def runtime_hash_def developer_commands_run_def
  custom_scripting_directory_def kBlessingHash_def
  release_build_def hashed_build_def quiet_environment_def failing_environment_def
  intercepting_environment_def crash_test_environment_def events_def events_of_def

lemma handle_events_exit_cleanly:
  assumes "embedded_hash b = None"
    and "HandleFatalError x t \<in> set (events (BallisticaMain b env))"
  shows "x"
proof -
  have bp: "\<And>g. blessing_policy b g = False"
    using assms(1) by (simp add: blessing_policy_no_hash)
  from BallisticaMain_events[of b env] obtain k S T where
    e: "events (BallisticaMain b env) =
       (if BA_CRASH_TEST env = Some ''1''
        then [ReportFatalError ''Fatal-Error-Test'' False,
              HandleFatalError (\<not> blessing_policy b initial_globals) False]
        else []) @ take k bootstrap_events @ S @ T"
    and S: "S = [] \<or>
      (k = length bootstrap_events \<and>
       ((throws env App_UsesEventLoop \<noteq> None \<and> S = [App_UsesEventLoop]) \<or>
        (throws env App_UsesEventLoop = None \<and>
         S = [App_UsesEventLoop,
              if UsesEventLoop (created_app env) then RunEventLoop False else App_PrimeEventPump])))"
    and T: "T = [] \<or> T = [Platform_WillExitMain False] \<or>
      (\<exists>w g. T = [ReportFatalError (''Unhandled exception in BallisticaMain(): '' @ w) True,
                   HandleFatalError (\<not> blessing_policy b g) True] \<or>
             T = [ReportFatalError (''Unhandled exception in BallisticaMain(): '' @ w) True,
                  HandleFatalError (\<not> blessing_policy b g) True, Platform_WillExitMain False])"
    by (elim exE conjE) (rule that)
  have B: "HandleFatalError x t \<notin> set (take k bootstrap_events)"
    using set_take_subset[of k bootstrap_events] by (auto simp: bootstrap_events_def)
  have S': "HandleFatalError x t \<notin> set S" using S by (auto split: if_splits)
  from assms(2) e B S' have "HandleFatalError x t \<in> set
       (if BA_CRASH_TEST env = Some ''1''
        then [ReportFatalError ''Fatal-Error-Test'' False,
              HandleFatalError (\<not> blessing_policy b initial_globals) False]
        else []) \<or> HandleFatalError x t \<in> set T" by auto
  then show ?thesis
  proof
    assume "HandleFatalError x t \<in> set
       (if BA_CRASH_TEST env = Some ''1''
        then [ReportFatalError ''Fatal-Error-Test'' False,
              HandleFatalError (\<not> blessing_policy b initial_globals) False]
        else [])"
    then show ?thesis by (auto simp: bp split: if_splits)
  next
    assume "HandleFatalError x t \<in> set T"
    with T show ?thesis by (auto simp: bp)
  qed
qed

text \<open>
  Claim C10. The file as it stands has a null \<^verbatim>\<open>kBlessingHash\<close>. A binary built from it
  classifies itself as not blessed in every global state, whatever the other build
  parameters are; so every \<^verbatim>\<open>HandleFatalError\<close> call of a run of \<^verbatim>\<open>BallisticaMain\<close>, and the
  one made by \<^verbatim>\<open>FatalError\<close> from any state, is passed \<^verbatim>\<open>exit_cleanly = true\<close>.
\<close>

theorem no_embedded_hash_never_blessed:
  "IsUnmodifiedBlessedBuild (b\<lparr> embedded_hash := kBlessingHash \<rparr>) g = Inr False \<and>
   (\<forall>x t. HandleFatalError x t \<in> set (events (BallisticaMain (b\<lparr> embedded_hash := kBlessingHash \<rparr>) env))
      \<longrightarrow> x) \<and>
   events_of (snd (FatalError (b\<lparr> embedded_hash := kBlessingHash \<rparr>) env message m)) =
     events_of m @ [ReportFatalError message False, HandleFatalError True False]"
proof (intro conjI allI impI)
  show "IsUnmodifiedBlessedBuild (b\<lparr> embedded_hash := kBlessingHash \<rparr>) g = Inr False"
    by (simp add: IsUnmodifiedBlessedBuild_policy blessing_policy_no_hash kBlessingHash_def)
next
  fix x t
  assume "HandleFatalError x t \<in> set (events (BallisticaMain (b\<lparr> embedded_hash := kBlessingHash \<rparr>) env))"
  then show x
    by (rule handle_events_exit_cleanly[rotated]) (simp add: kBlessingHash_def)
next
  show "events_of (snd (FatalError (b\<lparr> embedded_hash := kBlessingHash \<rparr>) env message m)) =
     events_of m @ [ReportFatalError message False, HandleFatalError True False]"
    by (simp add: FatalError_eq blessing_policy_no_hash kBlessingHash_def events_of_def)
qed

text \<open>
  The theorem at a run whose event pump raises: the handler passes \<^verbatim>\<open>exit_cleanly = true\<close>.
  With a hash embedded the same build would count as blessed before the runtime hash is
  computed, so the null constant is what decides.
\<close>

theorem no_embedded_hash_never_blessed_witness:
  "HandleFatalError True True \<in>
     set (events (BallisticaMain (hashed_build\<lparr> embedded_hash := kBlessingHash \<rparr>) failing_environment)) \<and>
   IsUnmodifiedBlessedBuild (hashed_build\<lparr> embedded_hash := kBlessingHash \<rparr>) initial_globals = Inr False \<and>
   IsUnmodifiedBlessedBuild hashed_build initial_globals = Inr True"
  using no_embedded_hash_never_blessed[of hashed_build initial_globals failing_environment
          "''x''" initial_machine]
  by (simp add: run_defs)

subsection \<open>Thread-affinity predicates\<close>

lemma module_predicate:
  "cpp_and (nonnull p) (field (\<lambda>m. IsCurrent cur (thread m)) p) =
     Inr (\<exists>m. p = Some m \<and> os_thread (thread m) = cur)"
  by (cases p) (simp_all add: IsCurrent_def)

text \<open>
  After phases 1 and 2 each module sits on the thread \<^verbatim>\<open>BallisticaMain\<close> added it to: the
  game module on the game thread, the graphics server on the calling (main) thread, and
  so on; that thread is the predicate's designated thread.
\<close>

lemma predicates_after_bootstrap:
  assumes "exec env (phase1 env @ phase2) m = (None, m')"
  shows "InGameThread cur (globals m') = Inr (cur = spawned env kGame)"
    and "InGraphicsThread cur (globals m') = Inr (cur = calling_thread env)"
    and "InAudioThread cur (globals m') = Inr (cur = spawned env kAudio)"
    and "InMediaThread cur (globals m') = Inr (cur = spawned env kMedia)"
    and "InNetworkWriteThread cur (globals m') = Inr (cur = spawned env kNetworkWrite)"
  using bootstrapped_globals[OF assms]
  by (auto simp: InGameThread_def InGraphicsThread_def InAudioThread_def InMediaThread_def
        InNetworkWriteThread_def module_predicate new_Thread_def IsCurrent_def)

text \<open>
  Claim C8. Each thread-affinity predicate never faults, and returns true only when its
  global pointer is set and the invoking thread is the thread of the object behind it
  (for \<^verbatim>\<open>InMainThread\<close>: the main thread recorded in the global state). While the pointer is
  still null, as before bootstrap, the predicate returns false. On a headless build
  \<^verbatim>\<open>InBGDynamicsThread\<close> returns false whatever the pointer and the invoking thread are.
\<close>

theorem thread_affinity_predicates:
  "InGameThread cur g = Inr (\<exists>m. g_game g = Some m \<and> os_thread (thread m) = cur) \<and>
   InMainThread cur g = Inr (\<exists>ag. g_app_globals g = Some ag \<and> main_thread_id ag = cur) \<and>
   InGraphicsThread cur g = Inr (\<exists>m. g_graphics_server g = Some m \<and> os_thread (thread m) = cur) \<and>
   InAudioThread cur g = Inr (\<exists>m. g_audio_server g = Some m \<and> os_thread (thread m) = cur) \<and>
   InBGDynamicsThread b cur g =
     Inr (\<not> headless_build b \<and> (\<exists>m. g_bg_dynamics_server g = Some m \<and> os_thread (thread m) = cur)) \<and>
   InMediaThread cur g = Inr (\<exists>m. g_media_server g = Some m \<and> os_thread (thread m) = cur) \<and>
   InNetworkWriteThread cur g =
     Inr (\<exists>m. g_network_write_module g = Some m \<and> os_thread (thread m) = cur) \<and>
   (g_game g = None \<longrightarrow> InGameThread cur g = Inr False) \<and>
   (g_app_globals g = None \<longrightarrow> InMainThread cur g = Inr False) \<and>
   (g_graphics_server g = None \<longrightarrow> InGraphicsThread cur g = Inr False) \<and>
   (g_audio_server g = None \<longrightarrow> InAudioThread cur g = Inr False) \<and>
   (g_bg_dynamics_server g = None \<longrightarrow> InBGDynamicsThread b cur g = Inr False) \<and>
   (g_media_server g = None \<longrightarrow> InMediaThread cur g = Inr False) \<and>
   (g_network_write_module g = None \<longrightarrow> InNetworkWriteThread cur g = Inr False) \<and>
   (headless_build b \<longrightarrow> InBGDynamicsThread b cur g = Inr False)"
proof -
  have main: "InMainThread cur g = Inr (\<exists>ag. g_app_globals g = Some ag \<and> main_thread_id ag = cur)"
    by (cases "g_app_globals g") (auto simp: InMainThread_def)
  have bg: "InBGDynamicsThread b cur g =
     Inr (\<not> headless_build b \<and> (\<exists>m. g_bg_dynamics_server g = Some m \<and> os_thread (thread m) = cur))"
    by (simp add: InBGDynamicsThread_def module_predicate)
  show ?thesis
    unfolding main bg
    by (simp add: InGameThread_def InGraphicsThread_def InAudioThread_def InMediaThread_def
        InNetworkWriteThread_def module_predicate)
qed

text \<open>
  The theorem before bootstrap (all pointers null), on a headless build with a bg-dynamics
  server on the invoking thread, and after a complete run of \<^verbatim>\<open>BallisticaMain\<close>, where the
  game thread is thread 4 and the main thread is thread 1.
\<close>

lemmas run_defs' = run_defs InGameThread_def InMainThread_def InGraphicsThread_def InAudioThread_def
  InBGDynamicsThread_def InMediaThread_def InNetworkWriteThread_def IsCurrent_def

theorem thread_affinity_predicates_witness:
  "g_game initial_globals = None \<and> g_app_globals initial_globals = None \<and>
   g_graphics_server initial_globals = None \<and> g_audio_server initial_globals = None \<and>
   g_bg_dynamics_server initial_globals = None \<and> g_media_server initial_globals = None \<and>
   g_network_write_module initial_globals = None \<and>
   headless_build (release_build\<lparr> headless_build := True \<rparr>) \<and>
   InGameThread 4 initial_globals = Inr False \<and>
   InMainThread 1 initial_globals = Inr False \<and>
   InBGDynamicsThread (release_build\<lparr> headless_build := True \<rparr>) 6
     ((globals (snd (BallisticaMain release_build quiet_environment)))
        \<lparr> g_bg_dynamics_server := Some \<lparr> thread = \<lparr> ident = kGame, os_thread = 6 \<rparr> \<rparr> \<rparr>) = Inr False \<and>
   InGameThread 4 (globals (snd (BallisticaMain release_build quiet_environment))) = Inr True \<and>
   InGameThread 1 (globals (snd (BallisticaMain release_build quiet_environment))) = Inr False \<and>
   InMainThread 1 (globals (snd (BallisticaMain release_build quiet_environment))) = Inr True"
  using thread_affinity_predicates[of 4 initial_globals "release_build\<lparr> headless_build := True \<rparr>"]
    thread_affinity_predicates[of 1 initial_globals "release_build\<lparr> headless_build := True \<rparr>"]
  by (simp add: run_defs')

subsection \<open>The exit decision of the top-level handler\<close>

text \<open>
  Claim C1, as the code has it. When a \<^verbatim>\<open>std::exception\<close> escapes the \<^verbatim>\<open>try\<close> block and the
  handle step does not intercept it, the handler reports it once and then follows the
  classifier through \<^verbatim>\<open>exit_cleanly = !IsUnmodifiedBlessedBuild()\<close>: on a build that is not
  blessed the process ends with \<^verbatim>\<open>exit(1)\<close>, on a blessed build the exception is re-raised.
  \<^verbatim>\<open>FatalError\<close> passes the same negated classification to its handle step.
\<close>

theorem exit_decision_follows_classifier:
  assumes "fst (try_block b env initial_machine) = Some (Throw (StdException w))"
    and "IsUnmodifiedBlessedBuild b (globals (snd (try_block b env initial_machine))) = Inr blessed"
    and "FatalError_HandleFatalError env (globals (snd (try_block b env initial_machine)))
           (\<not> blessed) True = Returns False"
  shows "fst (BallisticaMain b env) = (if blessed then Rethrown w else Exited 1) \<and>
         events (BallisticaMain b env) =
           events_of (snd (try_block b env initial_machine)) @
           [ReportFatalError (''Unhandled exception in BallisticaMain(): '' @ w) True,
            HandleFatalError (\<not> blessed) True] \<and>
         (IsUnmodifiedBlessedBuild b (globals m0) = Inr blessed0 \<longrightarrow>
            events_of (snd (FatalError b env message m0)) =
              events_of m0 @ [ReportFatalError message False, HandleFatalError (\<not> blessed0) False])"
proof -
  obtain r m where t: "try_block b env initial_machine = (r, m)"
    by (cases "try_block b env initial_machine")
  with assms have r: "r = Some (Throw (StdException w))"
    and bl: "blessing_policy b (globals m) = blessed"
    and h: "FatalError_HandleFatalError env (globals m) (\<not> blessing_policy b (globals m)) True
              \<noteq> Returns True"
    by (simp_all add: IsUnmodifiedBlessedBuild_policy)
  from BallisticaMain_tail[OF t] r h bl
  have "fst (BallisticaMain b env) = (if blessed then Rethrown w else Exited 1)"
    and "trace (snd (BallisticaMain b env)) = trace m @
       [(ReportFatalError (''Unhandled exception in BallisticaMain(): '' @ w) True, globals m),
        (HandleFatalError (\<not> blessed) True, globals m)]"
    by auto
  moreover have "IsUnmodifiedBlessedBuild b (globals m0) = Inr blessed0 \<longrightarrow>
            events_of (snd (FatalError b env message m0)) =
              events_of m0 @ [ReportFatalError message False, HandleFatalError (\<not> blessed0) False]"
    by (simp add: FatalError_eq IsUnmodifiedBlessedBuild_policy events_of_def)
  ultimately show ?thesis using t by (simp add: events_def events_of_def)
qed

text \<open>
  The theorem at a blessed build (a hash is embedded, the runtime hash is not computed
  yet) whose event pump raises: the exception is re-raised.
\<close>

theorem exit_decision_follows_classifier_witness:
  "fst (try_block hashed_build failing_environment initial_machine) =
     Some (Throw (StdException ''boom'')) \<and>
   IsUnmodifiedBlessedBuild hashed_build
     (globals (snd (try_block hashed_build failing_environment initial_machine))) = Inr True \<and>
   FatalError_HandleFatalError failing_environment
     (globals (snd (try_block hashed_build failing_environment initial_machine)))
     (\<not> True) True = Returns False \<and>
   fst (BallisticaMain hashed_build failing_environment) = Rethrown ''boom'' \<and>
   IsUnmodifiedBlessedBuild hashed_build (globals initial_machine) = Inr True \<and>
   events_of (snd (FatalError hashed_build failing_environment ''x'' initial_machine)) =
     [ReportFatalError ''x'' False, HandleFatalError False False]"
proof -
  have a: "fst (try_block hashed_build failing_environment initial_machine) =
     Some (Throw (StdException ''boom''))"
    by (simp add: run_defs)
  have b: "IsUnmodifiedBlessedBuild hashed_build
     (globals (snd (try_block hashed_build failing_environment initial_machine))) = Inr True"
    by (simp add: run_defs)
  have c: "FatalError_HandleFatalError failing_environment
     (globals (snd (try_block hashed_build failing_environment initial_machine)))
     (\<not> True) True = Returns False"
    by (simp add: run_defs)
  have d: "IsUnmodifiedBlessedBuild hashed_build (globals initial_machine) = Inr True"
    by (simp add: run_defs)
  from exit_decision_follows_classifier[OF a b c, of initial_machine True "''x''"] a b c d
  show ?thesis by (simp add: initial_machine_def events_of_def)
qed

text \<open>
  The polarity stated in claim C1 (blessed: \<^verbatim>\<open>exit(1)\<close>; not blessed: re-raise) fails on both
  sides. The same failure, not intercepted, ends the build that is not blessed with
  \<^verbatim>\<open>exit(1)\<close> and is re-raised on the blessed build.
\<close>

theorem exit_decision_counterexample:
  "fst (try_block release_build failing_environment initial_machine) =
     Some (Throw (StdException ''boom'')) \<and>
   FatalError_HandleFatalError failing_environment
     (globals (snd (try_block release_build failing_environment initial_machine)))
     True True = Returns False \<and>
   IsUnmodifiedBlessedBuild release_build
     (globals (snd (try_block release_build failing_environment initial_machine))) = Inr False \<and>
   fst (BallisticaMain release_build failing_environment) = Exited 1 \<and>
   fst (try_block hashed_build failing_environment initial_machine) =
     Some (Throw (StdException ''boom'')) \<and>
   FatalError_HandleFatalError failing_environment
     (globals (snd (try_block hashed_build failing_environment initial_machine)))
     False True = Returns False \<and>
   IsUnmodifiedBlessedBuild hashed_build
     (globals (snd (try_block hashed_build failing_environment initial_machine))) = Inr True \<and>
   fst (BallisticaMain hashed_build failing_environment) = Rethrown ''boom''"
  by (simp add: run_defs)

subsection \<open>The steady-state branch\<close>




subsection \<open>Leaving \<^verbatim>\<open>BallisticaMain\<close>\<close>





subsection \<open>Order of the bootstrap\<close>

text \<open>Positions in a list that is a prefix of a fixed program, between two other lists.\<close>

lemma nth_in_front:
  assumes "i < length (P @ Q)" "(P @ Q) ! i = y" "y \<notin> set Q"
  shows "i < length P"
proof (rule ccontr)
  assume "\<not> i < length P"
  with assms(1,2) have "Q ! (i - length P) = y" "i - length P < length Q"
    by (auto simp: nth_append)
  with assms(3) show False by (metis nth_mem)
qed

lemma nth_in_back:
  assumes "i < length (P @ Q)" "(P @ Q) ! i = y" "y \<notin> set P"
  shows "length P \<le> i"
proof (rule ccontr)
  assume "\<not> length P \<le> i"
  with assms(1,2) have "P ! i = y" "i < length P" by (auto simp: nth_append)
  with assms(3) show False by (metis nth_mem)
qed

lemma once_in_prefix:
  assumes "x \<notin> set A" "x \<notin> set B1" "x \<notin> set B2" "x \<notin> set R"
  shows "x \<in> set (A @ take k (B1 @ x # B2) @ R) \<longleftrightarrow> length B1 < k"
  using assms by (cases "k - length B1") (auto dest: in_set_takeD)

lemma prefix_kept:
  "length B1 < k \<Longrightarrow> set B1 \<subseteq> set (A @ take k (B1 @ x # B2) @ R)"
  by auto

lemma before_marker:
  assumes "i < length (A @ take k (B1 @ x # B2) @ R)"
    and "(A @ take k (B1 @ x # B2) @ R) ! i = y"
    and "y \<noteq> x" "y \<notin> set B2" "y \<notin> set R"
  shows "i < length A + length (take k B1)"
proof -
  have "y \<notin> set (take (k - length B1) (x # B2) @ R)"
    using assms(3,4,5) by (cases "k - length B1") (auto dest: in_set_takeD)
  moreover have "A @ take k (B1 @ x # B2) @ R =
      (A @ take k B1) @ (take (k - length B1) (x # B2) @ R)" by simp
  ultimately show ?thesis using nth_in_front[of i "A @ take k B1"] assms(1,2)
    by (metis length_append)
qed

lemma at_marker:
  assumes "j < length (A @ take k (B1 @ x # B2) @ R)"
    and "(A @ take k (B1 @ x # B2) @ R) ! j = x"
    and "x \<notin> set A" "x \<notin> set B1"
  shows "length A + length (take k B1) \<le> j"
proof -
  have "x \<notin> set (A @ take k B1)" using assms(3,4) by (auto dest: in_set_takeD)
  moreover have "A @ take k (B1 @ x # B2) @ R =
      (A @ take k B1) @ (take (k - length B1) (x # B2) @ R)" by simp
  ultimately show ?thesis using nth_in_back[of j "A @ take k B1"] assms(1,2)
    by (metis length_append)
qed

lemma after_marker:
  assumes "i < length (A @ take k (B1 @ x # B2) @ R)"
    and "(A @ take k (B1 @ x # B2) @ R) ! i = z"
    and "z \<noteq> x" "z \<notin> set A" "z \<notin> set B1" "z \<notin> set R"
  shows "length A + length B1 < i \<and> length B1 < k"
proof (cases "k - length B1")
  case 0
  then have "A @ take k (B1 @ x # B2) @ R = A @ take k B1 @ R" by simp
  moreover have "z \<notin> set (A @ take k B1 @ R)"
    using assms(4,5,6) by (auto dest: in_set_takeD)
  ultimately show ?thesis using assms(1,2) by (metis nth_mem)
next
  case (Suc n)
  then have k: "length B1 < k" by simp
  then have e: "A @ take k (B1 @ x # B2) @ R = (A @ B1 @ [x]) @ (take n B2 @ R)"
    using Suc by simp
  have "z \<notin> set (A @ B1 @ [x])" using assms(3,4,5) by simp
  with nth_in_back[of i "A @ B1 @ [x]" "take n B2 @ R" z] assms(1,2) e
  have "length (A @ B1 @ [x]) \<le> i" by metis
  with k show ?thesis by simp
qed

lemma marker_upper:
  assumes "j < length (A @ take k (B1 @ x # B2) @ R)"
    and "(A @ take k (B1 @ x # B2) @ R) ! j = x"
    and "x \<notin> set B2" "x \<notin> set R"
  shows "j \<le> length A + length B1"
proof -
  have "x \<notin> set (take (k - length B1 - 1) B2 @ R)"
    using assms(3,4) by (auto dest: in_set_takeD)
  moreover have "A @ take k (B1 @ x # B2) @ R =
      (A @ take k B1 @ take (k - length B1) [x]) @ (take (k - length B1 - 1) B2 @ R)"
    by (cases "k - length B1") auto
  ultimately have "j < length (A @ take k B1 @ take (k - length B1) [x])"
    using nth_in_front[of j "A @ take k B1 @ take (k - length B1) [x]"] assms(1,2) by metis
  then show ?thesis by (cases "k - length B1") auto
qed


lemma bootstrap_events_split:
  "bootstrap_events = take 22 bootstrap_events @ Set_is_bootstrapped # drop 23 bootstrap_events"
  "length (take 22 bootstrap_events) = 22"
  "Set_is_bootstrapped \<notin> set (take 22 bootstrap_events)"
  "Set_is_bootstrapped \<notin> set (drop 23 bootstrap_events)"
  "Game_PushApplyConfigCall \<notin> set (take 22 bootstrap_events)"
  "set phase1_creations \<subseteq> set (take 22 bootstrap_events)"
  "\<forall>e \<in> set (drop 23 bootstrap_events). \<not> creates_thread_or_module e"
  by (simp_all add: bootstrap_events_def phase1_creations_def)

text \<open>
  Claim C6. In every run of \<^verbatim>\<open>BallisticaMain\<close>, complete or cut short: each statement of
  phase 1 that creates a thread or attaches a module (the platform's auxiliary modules
  included) comes strictly before the assignment \<^verbatim>\<open>is_bootstrapped = true\<close>, and that
  assignment comes strictly before the apply-configuration call pushed to the game thread.
  When the assignment is reached, all eleven creations have run; the apply-configuration
  call is never made in a run without the assignment; and at the moment of the call
  \<^verbatim>\<open>is_bootstrapped\<close> reads true.
\<close>

theorem bootstrap_order:
  "(\<forall>i j. i < length (events (BallisticaMain b env)) \<and> j < length (events (BallisticaMain b env)) \<and>
          creates_thread_or_module (events (BallisticaMain b env) ! i) \<and>
          events (BallisticaMain b env) ! j = Set_is_bootstrapped \<longrightarrow> i < j) \<and>
   (\<forall>j n. j < length (events (BallisticaMain b env)) \<and> n < length (events (BallisticaMain b env)) \<and>
          events (BallisticaMain b env) ! j = Set_is_bootstrapped \<and>
          events (BallisticaMain b env) ! n = Game_PushApplyConfigCall \<longrightarrow> j < n) \<and>
   (Set_is_bootstrapped \<in> set (events (BallisticaMain b env)) \<longrightarrow>
      set phase1_creations \<subseteq> set (events (BallisticaMain b env))) \<and>
   (Game_PushApplyConfigCall \<in> set (events (BallisticaMain b env)) \<longrightarrow>
      Set_is_bootstrapped \<in> set (events (BallisticaMain b env))) \<and>
   (\<forall>(e, g) \<in> set (trace (snd (BallisticaMain b env))).
      e = Game_PushApplyConfigCall \<longrightarrow> IsBootstrapped g = Inr True)"
proof -
  let ?es = "events (BallisticaMain b env)"
  let ?A = "if BA_CRASH_TEST env = Some ''1''
        then [ReportFatalError ''Fatal-Error-Test'' False,
              HandleFatalError (\<not> blessing_policy b initial_globals) False]
        else []"
  let ?B1 = "take 22 bootstrap_events"
  let ?B2 = "drop 23 bootstrap_events"
  let ?x = "Set_is_bootstrapped"
  from BallisticaMain_events[of b env] obtain k S T where
    e0: "?es = ?A @ take k bootstrap_events @ S @ T"
    and S: "S = [] \<or>
      (k = length bootstrap_events \<and>
       ((throws env App_UsesEventLoop \<noteq> None \<and> S = [App_UsesEventLoop]) \<or>
        (throws env App_UsesEventLoop = None \<and>
         S = [App_UsesEventLoop,
              if UsesEventLoop (created_app env) then RunEventLoop False else App_PrimeEventPump])))"
    and T: "T = [] \<or> T = [Platform_WillExitMain False] \<or>
      (\<exists>w g. T = [ReportFatalError (''Unhandled exception in BallisticaMain(): '' @ w) True,
                   HandleFatalError (\<not> blessing_policy b g) True] \<or>
             T = [ReportFatalError (''Unhandled exception in BallisticaMain(): '' @ w) True,
                  HandleFatalError (\<not> blessing_policy b g) True, Platform_WillExitMain False])"
    by (elim exE conjE) (rule that)
  have e: "?es = ?A @ take k (?B1 @ ?x # ?B2) @ (S @ T)"
    using e0 bootstrap_events_split(1) by simp
  have xA: "?x \<notin> set ?A" and pA: "Game_PushApplyConfigCall \<notin> set ?A"
    and cA: "\<And>y. creates_thread_or_module y \<Longrightarrow> y \<notin> set ?A"
    by (auto split: if_splits)
  have xR: "?x \<notin> set (S @ T)" and pR: "Game_PushApplyConfigCall \<notin> set (S @ T)"
    and cR: "\<And>y. creates_thread_or_module y \<Longrightarrow> y \<notin> set (S @ T)"
    using S T by (auto split: if_splits)
  note sp = bootstrap_events_split
  have c1: "i < j" if "i < length ?es" "j < length ?es" "creates_thread_or_module (?es ! i)"
    "?es ! j = ?x" for i j
  proof -
    have "?es ! i \<noteq> ?x" using that(3) by auto
    moreover have "?es ! i \<notin> set ?B2" using that(3) sp(7) by blast
    ultimately have "i < length ?A + length (take k ?B1)"
      using before_marker[of i ?A k ?B1 ?x ?B2 "S @ T" "?es ! i"] that(1) cR[OF that(3)]
      unfolding e[symmetric] by simp
    moreover have "length ?A + length (take k ?B1) \<le> j"
      using at_marker[of j ?A k ?B1 ?x ?B2 "S @ T"] that(2,4) xA sp(3)
      unfolding e[symmetric] by simp
    ultimately show ?thesis by simp
  qed
  have c2: "j < n" if "j < length ?es" "n < length ?es" "?es ! j = ?x"
    "?es ! n = Game_PushApplyConfigCall" for j n
  proof -
    have "j \<le> length ?A + length ?B1"
      using marker_upper[of j ?A k ?B1 ?x ?B2 "S @ T"] that(1,3) sp(4) xR
      unfolding e[symmetric] by simp
    moreover have "length ?A + length ?B1 < n"
      using after_marker[of n ?A k ?B1 ?x ?B2 "S @ T" Game_PushApplyConfigCall] that(2,4) pA sp(5) pR
      unfolding e[symmetric] by simp
    ultimately show ?thesis by simp
  qed
  have mem: "?x \<in> set ?es \<longleftrightarrow> length ?B1 < k"
    unfolding e using once_in_prefix[of ?x ?A ?B1 ?B2 "S @ T" k] xA sp(3,4) xR by simp
  have c3: "?x \<in> set ?es \<longrightarrow> set phase1_creations \<subseteq> set ?es"
  proof
    assume "?x \<in> set ?es"
    with mem have "length ?B1 < k" by simp
    from prefix_kept[OF this, of ?A ?x ?B2 "S @ T"] have "set ?B1 \<subseteq> set ?es"
      unfolding e[symmetric] .
    with sp(6) show "set phase1_creations \<subseteq> set ?es" by blast
  qed
  have c4: "Game_PushApplyConfigCall \<in> set ?es \<longrightarrow> ?x \<in> set ?es"
  proof
    assume "Game_PushApplyConfigCall \<in> set ?es"
    then obtain n where n: "n < length ?es" "?es ! n = Game_PushApplyConfigCall"
      by (auto simp: in_set_conv_nth)
    from after_marker[of n ?A k ?B1 ?x ?B2 "S @ T" Game_PushApplyConfigCall] n pA sp(5) pR
    have "length ?B1 < k" unfolding e[symmetric] by simp
    with mem show "?x \<in> set ?es" by simp
  qed
  have c5: "\<forall>(e, g) \<in> set (trace (snd (BallisticaMain b env))).
      e = Game_PushApplyConfigCall \<longrightarrow> IsBootstrapped g = Inr True"
  proof -
    obtain r m where t: "try_block b env initial_machine = (r, m)"
      by (cases "try_block b env initial_machine")
    from try_block_trace[OF t] obtain A' B' S' k' where
      tb1: "trace m = A' @ B' @ S'" and tb2: "A' = (if BA_CRASH_TEST env = Some ''1''
          then [(ReportFatalError ''Fatal-Error-Test'' False, initial_globals),
                (HandleFatalError (\<not> blessing_policy b initial_globals) False, initial_globals)]
          else [])" and
      tbp: "\<forall>(e, g)\<in>set B'. e = Game_PushApplyConfigCall \<longrightarrow> IsBootstrapped g = Inr True" and
      tb5: "(S' = [] \<and> r \<noteq> None) \<or>
      (k' = length bootstrap_events \<and>
        ((\<exists>x. throws env App_UsesEventLoop = Some x \<and> r = Some (Throw x) \<and>
              map fst S' = [App_UsesEventLoop]) \<or>
         (throws env App_UsesEventLoop = None \<and>
          map fst S' = [App_UsesEventLoop,
             if UsesEventLoop (created_app env) then RunEventLoop False else App_PrimeEventPump])))"
      by (elim exE conjE) (rule that)
    from BallisticaMain_tail_events[OF t] obtain T' where
      T1: "trace (snd (BallisticaMain b env)) = trace m @ T'" and
      T2: "map fst T' = [] \<or> map fst T' = [Platform_WillExitMain False] \<or>
      (\<exists>w g. map fst T' = [ReportFatalError (''Unhandled exception in BallisticaMain(): '' @ w) True,
                   HandleFatalError (\<not> blessing_policy b g) True] \<or>
             map fst T' = [ReportFatalError (''Unhandled exception in BallisticaMain(): '' @ w) True,
                  HandleFatalError (\<not> blessing_policy b g) True, Platform_WillExitMain False])"
      by (elim exE conjE) (rule that)
    have nA: "Game_PushApplyConfigCall \<notin> set (map fst A')" unfolding tb2 by (auto split: if_splits)
    have nS: "Game_PushApplyConfigCall \<notin> set (map fst S')" using tb5 by (auto split: if_splits)
    have nT: "Game_PushApplyConfigCall \<notin> set (map fst T')" using T2 by auto
    show ?thesis
    proof (intro ballI, clarify)
      fix g
      assume "(Game_PushApplyConfigCall, g) \<in> set (trace (snd (BallisticaMain b env)))"
      then have "(Game_PushApplyConfigCall, g) \<in> set A' \<union> set B' \<union> set S' \<union> set T'"
        unfolding T1 tb1 by simp
      moreover have "(Game_PushApplyConfigCall, g) \<notin> set A'" using nA by force
      moreover have "(Game_PushApplyConfigCall, g) \<notin> set S'" using nS by force
      moreover have "(Game_PushApplyConfigCall, g) \<notin> set T'" using nT by force
      ultimately have "(Game_PushApplyConfigCall, g) \<in> set B'" by blast
      with tbp show "IsBootstrapped g = Inr True" by blast
    qed
  qed
  from c1 c2 c3 c4 c5 show ?thesis by (intro conjI allI impI) blast+
qed

text \<open>
  The theorem at a complete run: the media thread is created at position 8, the flag is
  set at position 22, the apply-configuration call is at position 23 and sees the flag.
\<close>

theorem bootstrap_order_witness:
  "8 < length (events (BallisticaMain release_build quiet_environment)) \<and>
   22 < length (events (BallisticaMain release_build quiet_environment)) \<and>
   23 < length (events (BallisticaMain release_build quiet_environment)) \<and>
   events (BallisticaMain release_build quiet_environment) ! 8 = New_Thread kMedia \<and>
   creates_thread_or_module (events (BallisticaMain release_build quiet_environment) ! 8) \<and>
   events (BallisticaMain release_build quiet_environment) ! 22 = Set_is_bootstrapped \<and>
   events (BallisticaMain release_build quiet_environment) ! 23 = Game_PushApplyConfigCall \<and>
   Set_is_bootstrapped \<in> set (events (BallisticaMain release_build quiet_environment)) \<and>
   Game_PushApplyConfigCall \<in> set (events (BallisticaMain release_build quiet_environment)) \<and>
   set phase1_creations \<subseteq> set (events (BallisticaMain release_build quiet_environment)) \<and>
   trace (snd (BallisticaMain release_build quiet_environment)) ! 23
     \<in> set (trace (snd (BallisticaMain release_build quiet_environment))) \<and>
   fst (trace (snd (BallisticaMain release_build quiet_environment)) ! 23) = Game_PushApplyConfigCall \<and>
   IsBootstrapped (snd (trace (snd (BallisticaMain release_build quiet_environment)) ! 23)) = Inr True"
proof -
  let ?R = "BallisticaMain release_build quiet_environment"
  have es: "events ?R =
      bootstrap_events @ [App_UsesEventLoop, App_PrimeEventPump, Platform_WillExitMain False]"
    by (simp add: run_defs bootstrap_events_def)
  have a: "8 < length (events ?R)" "22 < length (events ?R)" "23 < length (events ?R)"
    "events ?R ! 8 = New_Thread kMedia" "creates_thread_or_module (events ?R ! 8)"
    "events ?R ! 22 = Set_is_bootstrapped" "events ?R ! 23 = Game_PushApplyConfigCall"
    "Set_is_bootstrapped \<in> set (events ?R)" "Game_PushApplyConfigCall \<in> set (events ?R)"
    unfolding es by (simp_all add: bootstrap_events_def)
  have len: "length (trace (snd ?R)) = length (events ?R)"
    unfolding events_def events_of_def by (rule length_map[symmetric])
  have l23: "23 < length (trace (snd ?R))"
    unfolding len by (rule a(3))
  have m: "trace (snd ?R) ! 23 \<in> set (trace (snd ?R))"
    by (rule nth_mem[OF l23])
  have "events ?R ! 23 = fst (trace (snd ?R) ! 23)"
    unfolding events_def events_of_def by (rule nth_map[OF l23])
  with a(7) have f: "fst (trace (snd ?R) ! 23) = Game_PushApplyConfigCall"
    by (simp only:)
  note th = bootstrap_order[of release_build quiet_environment]
  have c: "set phase1_creations \<subseteq> set (events ?R)"
    by (rule th[THEN conjunct2, THEN conjunct2, THEN conjunct1, THEN mp, OF a(8)])
  note c5 = th[THEN conjunct2, THEN conjunct2, THEN conjunct2, THEN conjunct2]
  from bspec[OF c5 m]
  have "fst (trace (snd ?R) ! 23) = Game_PushApplyConfigCall \<longrightarrow>
          IsBootstrapped (snd (trace (snd ?R) ! 23)) = Inr True"
    by (simp only: case_prod_beta)
  then have s: "IsBootstrapped (snd (trace (snd ?R) ! 23)) = Inr True"
    using f by (rule mp)
  from a c m f s show ?thesis by (intro conjI)
qed

subsection \<open>The crash-test hook\<close>

lemma report_count:
  "count_list (events (BallisticaMain b env)) (ReportFatalError msg False) =
     (if BA_CRASH_TEST env = Some ''1'' \<and> msg = ''Fatal-Error-Test'' then 1 else 0)"
proof -
  from BallisticaMain_events[of b env] obtain k S T where
    e: "events (BallisticaMain b env) =
       (if BA_CRASH_TEST env = Some ''1''
        then [ReportFatalError ''Fatal-Error-Test'' False,
              HandleFatalError (\<not> blessing_policy b initial_globals) False]
        else []) @ take k bootstrap_events @ S @ T"
    and S: "S = [] \<or>
      (k = length bootstrap_events \<and>
       ((throws env App_UsesEventLoop \<noteq> None \<and> S = [App_UsesEventLoop]) \<or>
        (throws env App_UsesEventLoop = None \<and>
         S = [App_UsesEventLoop,
              if UsesEventLoop (created_app env) then RunEventLoop False else App_PrimeEventPump])))"
    and T: "T = [] \<or> T = [Platform_WillExitMain False] \<or>
      (\<exists>w g. T = [ReportFatalError (''Unhandled exception in BallisticaMain(): '' @ w) True,
                   HandleFatalError (\<not> blessing_policy b g) True] \<or>
             T = [ReportFatalError (''Unhandled exception in BallisticaMain(): '' @ w) True,
                  HandleFatalError (\<not> blessing_policy b g) True, Platform_WillExitMain False])"
    by (elim exE conjE) (rule that)
  have "ReportFatalError msg False \<notin> set (take k bootstrap_events)"
    using set_take_subset[of k bootstrap_events] by (auto simp: bootstrap_events_def)
  then have B: "count_list (take k bootstrap_events) (ReportFatalError msg False) = 0"
    by (simp add: count_list_0_iff)
  have S0: "count_list S (ReportFatalError msg False) = 0" using S by (auto split: if_splits)
  have T0: "count_list T (ReportFatalError msg False) = 0" using T by auto
  show ?thesis unfolding e by (simp add: B S0 T0 del: count_list.simps) auto
qed

text \<open>
  Claim C5. If \<^verbatim>\<open>BA_CRASH_TEST\<close> is exactly \<^verbatim>\<open>"1"\<close> at entry, the whole run consists of the
  report of the fatal error \<^verbatim>\<open>"Fatal-Error-Test"\<close> and its handle step, both while every
  global pointer is still null: that fatal error is reported exactly once, no other report
  is made, nothing is constructed, and the process ends there without returning from
  \<^verbatim>\<open>BallisticaMain\<close>. It ends with \<^verbatim>\<open>exit(1)\<close> when the build is not blessed, as is every build
  of the file as it stands, whose \<^verbatim>\<open>kBlessingHash\<close> is null; a build with an embedded hash
  counts as blessed at that point and ends with \<^verbatim>\<open>abort()\<close>. For any other value, or when the
  variable is unset, no fatal error is raised through \<^verbatim>\<open>FatalError\<close> and the run starts with
  \<^verbatim>\<open>new AppGlobals\<close>.
\<close>

theorem crash_test_hook:
  "(BA_CRASH_TEST env = Some ''1'' \<and> IsUnmodifiedBlessedBuild b initial_globals = Inr blessed \<longrightarrow>
      trace (snd (BallisticaMain b env)) =
        [(ReportFatalError ''Fatal-Error-Test'' False, initial_globals),
         (HandleFatalError (\<not> blessed) False, initial_globals)] \<and>
      count_list (events (BallisticaMain b env)) (ReportFatalError ''Fatal-Error-Test'' False) = 1 \<and>
      (\<forall>msg top. ReportFatalError msg top \<in> set (events (BallisticaMain b env)) \<longrightarrow>
                  msg = ''Fatal-Error-Test'' \<and> \<not> top) \<and>
      fst (BallisticaMain b env) = (if blessed then Aborted else Exited 1) \<and>
      (embedded_hash b = kBlessingHash \<longrightarrow> fst (BallisticaMain b env) = Exited 1)) \<and>
   (BA_CRASH_TEST env \<noteq> Some ''1'' \<longrightarrow>
      (\<forall>msg. ReportFatalError msg False \<notin> set (events (BallisticaMain b env))) \<and>
      trace (snd (BallisticaMain b env)) \<noteq> [] \<and>
      hd (trace (snd (BallisticaMain b env))) = (New_AppGlobals, initial_globals))"
proof -
  let ?R = "BallisticaMain b env"
  obtain r m where t: "try_block b env initial_machine = (r, m)"
    by (cases "try_block b env initial_machine")
  from try_block_trace[OF t] obtain A B S k where
    tb1: "trace m = A @ B @ S" and tb2: "A = (if BA_CRASH_TEST env = Some ''1''
          then [(ReportFatalError ''Fatal-Error-Test'' False, initial_globals),
                (HandleFatalError (\<not> blessing_policy b initial_globals) False, initial_globals)]
          else [])" and
    tb6: "if BA_CRASH_TEST env = Some ''1''
          then r = (if blessing_policy b initial_globals then Some Abort else Some (Exit 1)) \<and>
               B = [] \<and> S = []
          else B \<noteq> [] \<and> hd B = (New_AppGlobals, initial_globals)"
    by (elim exE conjE) (rule that)
  from BallisticaMain_tail_events[OF t] obtain T where T1: "trace (snd ?R) = trace m @ T"
    by (elim exE conjE) (rule that)
  have Tend: "r = Some Abort \<longrightarrow> T = [] \<and> fst ?R = Aborted"
    "r = Some (Exit 1) \<longrightarrow> T = [] \<and> fst ?R = Exited 1"
    using t T1 by (auto simp: BallisticaMain_def)
  have tr: "trace (snd ?R) = A @ B @ S @ T" using T1 tb1 by simp
  have nomem: "ReportFatalError msg False \<notin> set (events ?R)"
    if "\<not> (BA_CRASH_TEST env = Some ''1'' \<and> msg = ''Fatal-Error-Test'')" for msg
    using report_count[of b env msg] that by (simp add: count_list_0_iff)
  have crash: "trace (snd ?R) =
        [(ReportFatalError ''Fatal-Error-Test'' False, initial_globals),
         (HandleFatalError (\<not> blessed) False, initial_globals)] \<and>
      count_list (events ?R) (ReportFatalError ''Fatal-Error-Test'' False) = 1 \<and>
      (\<forall>msg top. ReportFatalError msg top \<in> set (events ?R) \<longrightarrow>
                  msg = ''Fatal-Error-Test'' \<and> \<not> top) \<and>
      fst ?R = (if blessed then Aborted else Exited 1) \<and>
      (embedded_hash b = kBlessingHash \<longrightarrow> fst ?R = Exited 1)"
    if c: "BA_CRASH_TEST env = Some ''1''" and
       bl: "IsUnmodifiedBlessedBuild b initial_globals = Inr blessed"
  proof -
    from bl have bp: "blessing_policy b initial_globals = blessed"
      by (simp add: IsUnmodifiedBlessedBuild_policy)
    from c tb2 bp have A: "A = [(ReportFatalError ''Fatal-Error-Test'' False, initial_globals),
         (HandleFatalError (\<not> blessed) False, initial_globals)]" by simp
    from c tb6 bp have e: "r = (if blessed then Some Abort else Some (Exit 1))" "B = []" "S = []"
      by simp_all
    from e(1) Tend have T: "T = []" and o: "fst ?R = (if blessed then Aborted else Exited 1)"
      by (auto split: if_splits)
    have p1: "trace (snd ?R) =
        [(ReportFatalError ''Fatal-Error-Test'' False, initial_globals),
         (HandleFatalError (\<not> blessed) False, initial_globals)]"
      unfolding tr A e(2,3) T by simp
    then have es: "events ?R =
        [ReportFatalError ''Fatal-Error-Test'' False, HandleFatalError (\<not> blessed) False]"
      by (simp add: events_def events_of_def)
    have p2: "count_list (events ?R) (ReportFatalError ''Fatal-Error-Test'' False) = 1"
      unfolding es by simp
    have p3: "\<forall>msg top. ReportFatalError msg top \<in> set (events ?R) \<longrightarrow>
                  msg = ''Fatal-Error-Test'' \<and> \<not> top"
      unfolding es by simp
    have p5: "embedded_hash b = kBlessingHash \<longrightarrow> fst ?R = Exited 1"
    proof
      assume "embedded_hash b = kBlessingHash"
      then have "blessing_policy b initial_globals = False"
        by (simp add: blessing_policy_no_hash kBlessingHash_def)
      with bp o show "fst ?R = Exited 1" by simp
    qed
    from p1 p2 p3 o p5 show ?thesis by (intro conjI)
  qed
  have quiet: "(\<forall>msg. ReportFatalError msg False \<notin> set (events ?R)) \<and>
      trace (snd ?R) \<noteq> [] \<and> hd (trace (snd ?R)) = (New_AppGlobals, initial_globals)"
    if c: "BA_CRASH_TEST env \<noteq> Some ''1''"
  proof -
    from c tb2 have A: "A = []" by simp
    from c tb6 have B: "B \<noteq> []" "hd B = (New_AppGlobals, initial_globals)" by simp_all
    from nomem c have "\<forall>msg. ReportFatalError msg False \<notin> set (events ?R)" by blast
    with tr A B show ?thesis by simp
  qed
  from crash quiet show ?thesis by (intro conjI impI) blast+
qed

text \<open>
  The theorem at a release build of the file as it stands, on a platform that would
  intercept every fatal error once it exists: the run is the report and the handle step,
  and the process ends with \<^verbatim>\<open>exit(1)\<close>. And at a run with the variable set to \<^verbatim>\<open>"10"\<close>.
\<close>

theorem crash_test_hook_witness:
  "BA_CRASH_TEST crash_test_environment = Some ''1'' \<and>
   IsUnmodifiedBlessedBuild release_build initial_globals = Inr False \<and>
   embedded_hash release_build = kBlessingHash \<and>
   trace (snd (BallisticaMain release_build crash_test_environment)) =
     [(ReportFatalError ''Fatal-Error-Test'' False, initial_globals),
      (HandleFatalError True False, initial_globals)] \<and>
   count_list (events (BallisticaMain release_build crash_test_environment))
     (ReportFatalError ''Fatal-Error-Test'' False) = 1 \<and>
   fst (BallisticaMain release_build crash_test_environment) = Exited 1 \<and>
   BA_CRASH_TEST (quiet_environment\<lparr> BA_CRASH_TEST := Some ''10'' \<rparr>) \<noteq> Some ''1'' \<and>
   hd (trace (snd (BallisticaMain release_build (quiet_environment\<lparr> BA_CRASH_TEST := Some ''10'' \<rparr>)))) =
     (New_AppGlobals, initial_globals)"
proof -
  have a: "BA_CRASH_TEST crash_test_environment = Some ''1''"
    "IsUnmodifiedBlessedBuild release_build initial_globals = Inr False"
    "embedded_hash release_build = kBlessingHash"
    "BA_CRASH_TEST (quiet_environment\<lparr> BA_CRASH_TEST := Some ''10'' \<rparr>) \<noteq> Some ''1''"
    by (simp_all add: crash_test_environment_def intercepting_environment_def
          failing_environment_def quiet_environment_def release_build_def
          IsUnmodifiedBlessedBuild_policy blessing_policy_def kBlessingHash_def)
  from crash_test_hook[of crash_test_environment release_build False] a(1,2,3)
  have b: "trace (snd (BallisticaMain release_build crash_test_environment)) =
     [(ReportFatalError ''Fatal-Error-Test'' False, initial_globals),
      (HandleFatalError True False, initial_globals)]"
    "count_list (events (BallisticaMain release_build crash_test_environment))
     (ReportFatalError ''Fatal-Error-Test'' False) = 1"
    "fst (BallisticaMain release_build crash_test_environment) = Exited 1"
    by simp_all
  from crash_test_hook[of "quiet_environment\<lparr> BA_CRASH_TEST := Some ''10'' \<rparr>" release_build False] a(4)
  have c: "hd (trace (snd (BallisticaMain release_build (quiet_environment\<lparr> BA_CRASH_TEST := Some ''10'' \<rparr>)))) =
     (New_AppGlobals, initial_globals)"
    by simp
  from a b c show ?thesis by (intro conjI)
qed

end
